theory Spec2Isabelle
  imports Complex_Main
begin

section \<open>Python values, exceptions and the two text parsers\<close>

text \<open>
  The program is \<^verbatim>\<open>backend/app/main.py\<close>: a resolver for one cell of the
  \<^verbatim>\<open>ConstructorTable\<close> column (\<^verbatim>\<open>validate_constructor_data\<close>), the expansion of that
  column into flat columns (\<^verbatim>\<open>normalize_constructor_data\<close>), the table cleaner
  (\<^verbatim>\<open>clean_dataframe\<close>) and the request handler (\<^verbatim>\<open>analyze_f1_data\<close>).

  A Python value is one of the values a JSON document denotes, plus the float NaN that pandas
  uses for a missing cell. Integers are unbounded, as in Python. A float is modelled by the real
  number it holds (no rounding); infinities are left out. A dictionary is an association list in
  insertion order with text keys. Tuples, sets, bytes and dictionaries with other keys, which
  \<^verbatim>\<open>ast.literal_eval\<close> can also build, are outside this type.
\<close>

datatype pyval =
    PNone
  | PBool bool
  | PInt int
  | PFloat real
  | PNaN
  | PStr string
  | PList "pyval list"
  | PDict "(string \<times> pyval) list"

type_synonym pydict = "(string \<times> pyval) list"

text \<open>
  The exception classes the program meets. \<^verbatim>\<open>JSONDecodeError\<close> is a subclass of
  \<^verbatim>\<open>ValueError\<close>; every class here derives from \<^verbatim>\<open>Exception\<close>.
  \<open>HTTPException\<close> carries its status code and its \<^verbatim>\<open>detail\<close>; any other exception
  carries its class and the text \<^verbatim>\<open>str(e)\<close> gives.
\<close>

datatype exn_class =
    JSONDecodeError
  | ValueError
  | SyntaxError
  | TypeError
  | RecursionError
  | MemoryError
  | AttributeError
  | InvalidIndexError
  | OtherError string

datatype exn = HTTPException nat string | PyError exn_class string

fun exn_class_of :: "exn \<Rightarrow> exn_class option" where
  "exn_class_of (HTTPException _ _) = None"
| "exn_class_of (PyError c _) = Some c"

text \<open>\<^verbatim>\<open>except json.JSONDecodeError\<close> and \<^verbatim>\<open>except (ValueError, SyntaxError)\<close>.\<close>

definition is_JSONDecodeError :: "exn \<Rightarrow> bool" where
  "is_JSONDecodeError e = (exn_class_of e = Some JSONDecodeError)"

definition is_ValueError_or_SyntaxError :: "exn \<Rightarrow> bool" where
  "is_ValueError_or_SyntaxError e =
     (exn_class_of e = Some ValueError \<or> exn_class_of e = Some JSONDecodeError
      \<or> exn_class_of e = Some SyntaxError)"

text \<open>
  \<^verbatim>\<open>json.loads\<close> and \<^verbatim>\<open>ast.literal_eval\<close> belong to the Python standard library, not
  to this repository. They are parameters of the model: each maps a text to the value it
  parses to, or to the exception it raises. Theorems about the program hold for every such
  pair of parsers.
\<close>

record parsers =
  json_loads :: "string \<Rightarrow> exn + pyval"
  literal_eval :: "string \<Rightarrow> exn + pyval"

section \<open>The cell resolver\<close>

text \<open>
  \<^verbatim>\<open>
  def validate_constructor_data(data: Any) -> List[Dict]:
      if isinstance(data, str):
          try:
              data = json.loads(data)
          except json.JSONDecodeError:
              try:
                  data = ast.literal_eval(data)
              except (ValueError, SyntaxError):
                  logger.error(...)
                  return []
      if not isinstance(data, list):
          logger.error(...)
          return []
      return data
  \<close>
  The result is the list, or the exception that leaves the function.
\<close>

fun as_list :: "pyval \<Rightarrow> pyval list" where
  "as_list (PList xs) = xs"
| "as_list _ = []"

definition validate_constructor_data :: "parsers \<Rightarrow> pyval \<Rightarrow> exn + pyval list" where
  "validate_constructor_data P data =
     (case data of
        PStr s \<Rightarrow>
          (case json_loads P s of
             Inr v \<Rightarrow> Inr (as_list v)
           | Inl e \<Rightarrow>
               if is_JSONDecodeError e then
                 (case literal_eval P s of
                    Inr v \<Rightarrow> Inr (as_list v)
                  | Inl e' \<Rightarrow> if is_ValueError_or_SyntaxError e' then Inr [] else Inl e')
               else Inl e)
      | _ \<Rightarrow> Inr (as_list data))"

section \<open>Selecting the target constructor\<close>

text \<open>
  \<^verbatim>\<open>
  lambda x: next((item for item in x if isinstance(item, dict) and
                  item.get('constructorId') == 'ferrari'), {})
  \<close>
  \<^verbatim>\<open>item.get(k)\<close> is \<^verbatim>\<open>None\<close> for a missing key, and only the text
  \<^verbatim>\<open>'ferrari'\<close> equals \<^verbatim>\<open>'ferrari'\<close>.
\<close>

fun is_ferrari :: "pyval \<Rightarrow> bool" where
  "is_ferrari (PDict d) = (map_of d ''constructorId'' = Some (PStr ''ferrari''))"
| "is_ferrari _ = False"

fun select_ferrari :: "pyval list \<Rightarrow> pyval" where
  "select_ferrari [] = PDict []"
| "select_ferrari (item # x) = (if is_ferrari item then item else select_ferrari x)"

section \<open>Tables\<close>

text \<open>
  A pandas \<^verbatim>\<open>DataFrame\<close>: the column labels in order, and the rows in order, each
  with its row label (the index) and one cell per column. A column built from record keys is
  labelled by a text; a column the constructor numbers itself is labelled by its position. Row
  labels are integers, as in every table the constructor builds. A text is a list of code
  points below 256.
\<close>

datatype label = Lab string | Pos nat

record frame =
  columns :: "label list"
  rows :: "(int \<times> pyval list) list"

definition wf_frame :: "frame \<Rightarrow> bool" where
  "wf_frame T =
     (distinct (columns T) \<and> list_all (\<lambda>r. length (snd r) = length (columns T)) (rows T))"


text \<open>
  Reading the cell of a row under a label. The program reads a column only after it has
  checked \<^verbatim>\<open>label in df.columns\<close> or has just assigned the column, so the label is
  present at every call; the fallback value is never observed there.
\<close>

definition cell :: "label list \<Rightarrow> label \<Rightarrow> pyval list \<Rightarrow> pyval" where
  "cell cols c r = (case map_of (zip cols r) c of Some v \<Rightarrow> v | None \<Rightarrow> PNaN)"

definition column_values :: "label \<Rightarrow> frame \<Rightarrow> pyval list" where
  "column_values c T = map (\<lambda>r. cell (columns T) c (snd r)) (rows T)"

text \<open>\<^verbatim>\<open>df.drop(label, axis=1)\<close>, called by the program only with a label that is present.\<close>

definition drop_cells :: "label list \<Rightarrow> label \<Rightarrow> pyval list \<Rightarrow> pyval list" where
  "drop_cells cols c r = map snd (filter (\<lambda>p. fst p \<noteq> c) (zip cols r))"

definition drop_column :: "label \<Rightarrow> frame \<Rightarrow> frame" where
  "drop_column c T =
     \<lparr>columns = filter (\<lambda>l. l \<noteq> c) (columns T),
      rows = map (\<lambda>r. (fst r, drop_cells (columns T) c (snd r))) (rows T)\<rparr>"

text \<open>
  \<^verbatim>\<open>df[label] = series\<close> with a series on the table's own index: an existing column is
  overwritten in place, a new one is appended on the right.
\<close>

definition set_cell :: "label list \<Rightarrow> label \<Rightarrow> pyval \<Rightarrow> pyval list \<Rightarrow> pyval list" where
  "set_cell cols c v r =
     (if c \<in> set cols then map (\<lambda>p. if fst p = c then v else snd p) (zip cols r)
      else r @ [v])"

definition assign_column :: "label \<Rightarrow> pyval list \<Rightarrow> frame \<Rightarrow> frame" where
  "assign_column c vs T =
     \<lparr>columns = (if c \<in> set (columns T) then columns T else columns T @ [c]),
      rows = map (\<lambda>p. (fst (fst p), set_cell (columns T) c (snd p) (snd (fst p))))
               (zip (rows T) vs)\<rparr>"

text \<open>\<^verbatim>\<open>df[mask]\<close> with a boolean mask: the rows whose mask entry is true, labels kept.\<close>

definition filter_rows :: "(pyval list \<Rightarrow> bool) \<Rightarrow> frame \<Rightarrow> frame" where
  "filter_rows p T = \<lparr>columns = columns T, rows = filter (\<lambda>r. p (snd r)) (rows T)\<rparr>"

text \<open>\<^verbatim>\<open>df.empty\<close>: some axis has length zero.\<close>

definition empty_frame :: "frame \<Rightarrow> bool" where
  "empty_frame T = (rows T = [] \<or> columns T = [])"

text \<open>\<^verbatim>\<open>series.apply(f)\<close>: in row order; the first exception of \<open>f\<close> leaves the call.\<close>

fun apply_series :: "('a \<Rightarrow> exn + 'b) \<Rightarrow> 'a list \<Rightarrow> exn + 'b list" where
  "apply_series f [] = Inr []"
| "apply_series f (x # xs) =
     (case f x of
        Inl e \<Rightarrow> Inl e
      | Inr y \<Rightarrow> (case apply_series f xs of Inl e \<Rightarrow> Inl e | Inr ys \<Rightarrow> Inr (y # ys)))"

text \<open>Python truth value, as the \<^verbatim>\<open>and\<close> of line 89 takes it.\<close>

fun truthy :: "pyval \<Rightarrow> bool" where
  "truthy PNone = False"
| "truthy (PBool b) = b"
| "truthy (PInt i) = (i \<noteq> 0)"
| "truthy (PFloat x) = (x \<noteq> 0)"
| "truthy PNaN = True"
| "truthy (PStr s) = (s \<noteq> [])"
| "truthy (PList xs) = (xs \<noteq> [])"
| "truthy (PDict d) = (d \<noteq> [])"

text \<open>First occurrences by key, in order: what \<^verbatim>\<open>keep='first'\<close> leaves.\<close>

fun keep_first :: "('a \<Rightarrow> 'k) \<Rightarrow> 'a list \<Rightarrow> 'a list" where
  "keep_first key [] = []"
| "keep_first key (x # xs) = x # keep_first key (filter (\<lambda>y. key y \<noteq> key x) xs)"

section \<open>The table constructor\<close>

text \<open>
  \<^verbatim>\<open>pd.DataFrame(list)\<close> stores each column after type inference
  (\<^verbatim>\<open>maybe_convert_objects\<close>): a column that holds only integers, floats, NaN and
  \<^verbatim>\<open>None\<close>, not all of them \<^verbatim>\<open>None\<close> and not all of them integers, becomes a
  float column, where \<^verbatim>\<open>None\<close> is NaN and an integer is the float of the same value. Any
  other column keeps its values. (The 64-bit range of stored integers is not modelled.)
\<close>

fun is_dict :: "pyval \<Rightarrow> bool" where
  "is_dict (PDict _) = True"
| "is_dict _ = False"

fun dict_items :: "pyval \<Rightarrow> pydict" where
  "dict_items (PDict d) = d"
| "dict_items _ = []"

fun is_int :: "pyval \<Rightarrow> bool" where
  "is_int (PInt _) = True"
| "is_int _ = False"

fun is_number_or_null :: "pyval \<Rightarrow> bool" where
  "is_number_or_null PNone = True"
| "is_number_or_null (PInt _) = True"
| "is_number_or_null (PFloat _) = True"
| "is_number_or_null PNaN = True"
| "is_number_or_null _ = False"

fun to_float :: "pyval \<Rightarrow> pyval" where
  "to_float PNone = PNaN"
| "to_float (PInt i) = PFloat (of_int i)"
| "to_float v = v"

definition infer_column :: "pyval list \<Rightarrow> pyval list" where
  "infer_column vs =
     (if list_all is_number_or_null vs \<and> \<not> list_all (\<lambda>v. v = PNone) vs \<and> \<not> list_all is_int vs
      then map to_float vs else vs)"

definition table_of_columns :: "label list \<Rightarrow> pyval list list \<Rightarrow> nat \<Rightarrow> frame" where
  "table_of_columns ls cols n =
     \<lparr>columns = ls, rows = map (\<lambda>i. (int i, map (\<lambda>col. col ! i) cols)) [0..<n]\<rparr>"

text \<open>
  A list of dicts: the columns are the keys in order of first appearance, a key that a record
  lacks gives NaN, the rows are labelled \<open>0, 1, \<dots>\<close>.
\<close>

definition record_value :: "string \<Rightarrow> pydict \<Rightarrow> pyval" where
  "record_value k d = (case map_of d k of Some v \<Rightarrow> v | None \<Rightarrow> PNaN)"

definition DataFrame_records :: "pydict list \<Rightarrow> frame" where
  "DataFrame_records ds =
     (let ks = keep_first id (concat (map (map fst) ds))
      in table_of_columns (map Lab ks)
           (map (\<lambda>k. infer_column (map (record_value k) ds)) ks) (length ds))"

text \<open>
  A list whose first element is a list is read as rows of positional cells
  (\<^verbatim>\<open>to_object_array\<close> takes \<^verbatim>\<open>len\<close> and \<^verbatim>\<open>list\<close> of every element and pads with
  \<^verbatim>\<open>None\<close>).
\<close>

fun row_items :: "pyval \<Rightarrow> pyval list option" where
  "row_items (PList xs) = Some xs"
| "row_items (PDict d) = Some (map (\<lambda>p. PStr (fst p)) d)"
| "row_items (PStr s) = Some (map (\<lambda>c. PStr [c]) s)"
| "row_items _ = None"

definition item_at :: "nat \<Rightarrow> pyval \<Rightarrow> pyval" where
  "item_at j x =
     (case row_items x of
        Some r \<Rightarrow> if j < length r then r ! j else PNone
      | None \<Rightarrow> PNone)"

definition row_width :: "pyval \<Rightarrow> nat" where
  "row_width x = (case row_items x of Some r \<Rightarrow> length r | None \<Rightarrow> 0)"

text \<open>
  \<^verbatim>\<open>pd.DataFrame(data)\<close> for a Python list: the first element decides how the list is
  read. A dict: every element must have \<^verbatim>\<open>.keys()\<close>. A list: rows of positional cells. A
  scalar: one column labelled \<open>0\<close> that holds the elements.
\<close>

definition DataFrame_list :: "pyval list \<Rightarrow> exn + frame" where
  "DataFrame_list data =
     (case data of
        [] \<Rightarrow> Inr \<lparr>columns = [], rows = []\<rparr>
      | PDict _ # _ \<Rightarrow>
          if list_all is_dict data then Inr (DataFrame_records (map dict_items data))
          else Inl (PyError AttributeError ''object has no attribute keys'')
      | PList _ # _ \<Rightarrow>
          if list_all (\<lambda>x. row_items x \<noteq> None) data then
            (let k = fold max (map row_width data) 0
             in Inr (table_of_columns (map Pos [0..<k])
                       (map (\<lambda>j. infer_column (map (item_at j) data)) [0..<k]) (length data)))
          else Inl (PyError TypeError ''object has no len()'')
      | _ \<Rightarrow> Inr (table_of_columns [Pos 0] [infer_column data] (length data)))"

section \<open>Flattening records\<close>

text \<open>
  \<^verbatim>\<open>pd.json_normalize(list_of_dicts)\<close> flattens each record
  (\<^verbatim>\<open>_normalise_json_ordered\<close>: the entries that are not dicts first, then the nested dicts
  depth first, a nested key named by its path joined with \<^verbatim>\<open>.\<close>) and hands the flat records
  to the table constructor. Storing under a key that is already there overwrites in place.
\<close>

fun dict_set :: "string \<Rightarrow> pyval \<Rightarrow> pydict \<Rightarrow> pydict" where
  "dict_set k v [] = [(k, v)]"
| "dict_set k v (p # ps) = (if fst p = k then (k, v) # ps else p # dict_set k v ps)"

fun normalise_json :: "string \<Rightarrow> pyval \<Rightarrow> pydict \<Rightarrow> pydict" where
  "normalise_json key_string (PDict d) normalized_dict =
     fold (\<lambda>p acc. normalise_json
                     (if key_string = [] then fst p else key_string @ ''.'' @ fst p) (snd p) acc)
          d normalized_dict"
| "normalise_json key_string v normalized_dict = dict_set key_string v normalized_dict"

definition normalise_json_ordered :: "pydict \<Rightarrow> pydict" where
  "normalise_json_ordered data =
     (let top_dict = filter (\<lambda>p. \<not> is_dict (snd p)) data;
          nested_dict = normalise_json [] (PDict (filter (\<lambda>p. is_dict (snd p)) data)) []
      in fold (\<lambda>p. dict_set (fst p) (snd p)) nested_dict top_dict)"

definition json_normalize :: "pyval list \<Rightarrow> frame" where
  "json_normalize data = DataFrame_records (map (\<lambda>v. normalise_json_ordered (dict_items v)) data)"

section \<open>Joining two tables side by side\<close>

text \<open>
  \<^verbatim>\<open>pd.concat([a, b], axis=1)\<close> joins on the row labels. With equal label lists the rows
  are paired in order. Otherwise both tables are re-indexed on the union of the labels (those
  of \<open>a\<close>, then the new ones of \<open>b\<close>), a row that a table lacks is filled with NaN, and
  re-indexing a table with a repeated label raises. The program calls it with \<open>b\<close> freshly built,
  so labelled \<open>0, 1, \<dots>\<close> with as many rows as \<open>a\<close>. (pandas also widens an all-integer column to
  floats of the same value when a fill puts NaN into it; the storage width is not modelled.)
\<close>

definition reindex_row :: "frame \<Rightarrow> int \<Rightarrow> pyval list" where
  "reindex_row T i =
     (case map_of (rows T) i of
        Some r \<Rightarrow> r
      | None \<Rightarrow> replicate (length (columns T)) PNaN)"

definition concat_axis1 :: "frame \<Rightarrow> frame \<Rightarrow> exn + frame" where
  "concat_axis1 a b =
     (let ia = map fst (rows a); ib = map fst (rows b)
      in if ia = ib then
           Inr \<lparr>columns = columns a @ columns b,
                rows = map (\<lambda>p. (fst (fst p), snd (fst p) @ snd (snd p))) (zip (rows a) (rows b))\<rparr>
         else if \<not> distinct ia \<or> \<not> distinct ib then
           Inl (PyError InvalidIndexError
                  ''Reindexing only valid with uniquely valued Index objects'')
         else
           Inr \<lparr>columns = columns a @ columns b,
                rows = map (\<lambda>i. (i, reindex_row a i @ reindex_row b i))
                         (ia @ filter (\<lambda>j. j \<notin> set ia) ib)\<rparr>)"

section \<open>Removing duplicate rows\<close>

text \<open>
  \<^verbatim>\<open>df.drop_duplicates(subset=cols)\<close> returns an empty table as it is. Otherwise it hashes
  every cell of the subset columns, so a list or a dict there raises \<^verbatim>\<open>TypeError\<close>, and
  keeps the first row of every group of rows that agree on the subset. Two cells agree when
  they are equal numbers (a bool counts as 0 or 1), equal texts, or both missing; with a
  one-column subset pandas takes the path of \<^verbatim>\<open>Series.duplicated\<close>, which tells
  \<^verbatim>\<open>None\<close> from NaN.
\<close>

datatype key = KNone | KNaN | KNum real | KStr string

fun cell_key :: "bool \<Rightarrow> pyval \<Rightarrow> key option" where
  "cell_key single PNone = Some KNone"
| "cell_key single PNaN = Some (if single then KNaN else KNone)"
| "cell_key single (PBool b) = Some (KNum (if b then 1 else 0))"
| "cell_key single (PInt i) = Some (KNum (of_int i))"
| "cell_key single (PFloat x) = Some (KNum x)"
| "cell_key single (PStr s) = Some (KStr s)"
| "cell_key single (PList _) = None"
| "cell_key single (PDict _) = None"

definition row_key :: "label list \<Rightarrow> label list \<Rightarrow> pyval list \<Rightarrow> key option list" where
  "row_key cols subs r = map (\<lambda>c. cell_key (length subs = 1) (cell cols c r)) subs"

definition drop_duplicates :: "label list \<Rightarrow> frame \<Rightarrow> exn + frame" where
  "drop_duplicates subs T =
     (if empty_frame T then Inr T
      else if list_ex (\<lambda>r. None \<in> set (row_key (columns T) subs (snd r))) (rows T)
      then Inl (PyError TypeError ''unhashable type'')
      else Inr \<lparr>columns = columns T,
                rows = keep_first (\<lambda>r. row_key (columns T) subs (snd r)) (rows T)\<rparr>)"

section \<open>The table cleaner\<close>

text \<open>
  \<^verbatim>\<open>isinstance(x, (int, float)) or (isinstance(x, str) and x.isdigit())\<close>. A bool is an
  \<^verbatim>\<open>int\<close> and NaN is a \<^verbatim>\<open>float\<close>. Below code point 256 the characters with the digit
  property are \<open>0\<close> to \<open>9\<close> and the superscripts two, three and one.
\<close>

definition is_digit_char :: "char \<Rightarrow> bool" where
  "is_digit_char c =
     ((48 \<le> (of_char c :: nat) \<and> (of_char c :: nat) \<le> 57)
      \<or> (of_char c :: nat) = 178 \<or> (of_char c :: nat) = 179 \<or> (of_char c :: nat) = 185)"

definition isdigit :: "string \<Rightarrow> bool" where
  "isdigit s = (s \<noteq> [] \<and> list_all is_digit_char s)"

fun is_year_number :: "pyval \<Rightarrow> bool" where
  "is_year_number (PBool _) = True"
| "is_year_number (PInt _) = True"
| "is_year_number (PFloat _) = True"
| "is_year_number PNaN = True"
| "is_year_number (PStr s) = isdigit s"
| "is_year_number _ = False"

text \<open>
  \<^verbatim>\<open>df['year'] == df['season']\<close>, cell by cell: a missing value equals nothing, numbers are
  compared by value, texts by their characters, a number never equals a text. Lists and dicts
  are compared as they are written; \<open>clean_dataframe\<close> never gets that far with one, since
  \<open>drop_duplicates\<close> has raised on it before.
\<close>

fun num_val :: "pyval \<Rightarrow> real option" where
  "num_val (PBool b) = Some (if b then 1 else 0)"
| "num_val (PInt i) = Some (of_int i)"
| "num_val (PFloat x) = Some x"
| "num_val _ = None"

definition series_eq :: "pyval \<Rightarrow> pyval \<Rightarrow> bool" where
  "series_eq a b =
     (if a = PNone \<or> a = PNaN \<or> b = PNone \<or> b = PNaN then False
      else case (num_val a, num_val b) of
             (Some x, Some y) \<Rightarrow> x = y
           | (None, None) \<Rightarrow> a = b
           | _ \<Rightarrow> False)"

text \<open>
  \<^verbatim>\<open>
  def clean_dataframe(df):
      if 'ConstructorTable' in df.columns:
          df = df[df['ConstructorTable'].apply(lambda x: not (isinstance(x, (int, float))
                  or (isinstance(x, str) and x.isdigit())))]
      safe_columns = [col for col in df.columns if col != 'ConstructorTable']
      if safe_columns:
          df = df.drop_duplicates(subset=safe_columns)
      if 'year' in df.columns and 'season' in df.columns:
          df = df[df['year'] == df['season']]
          df = df.drop('season', axis=1)
      return df
  \<close>
  On a table without rows \<^verbatim>\<open>Series.apply\<close> returns an empty series that keeps the column's
  storage type, which is not a boolean mask; \<^verbatim>\<open>df[...]\<close> then reads it as an empty list of
  column labels and returns a table without columns. The comparison of the third step always
  gives a boolean mask.
\<close>

definition remove_year_rows :: "frame \<Rightarrow> frame" where
  "remove_year_rows df =
     (if rows df = [] then \<lparr>columns = [], rows = []\<rparr>
      else filter_rows (\<lambda>r. \<not> is_year_number (cell (columns df) (Lab ''ConstructorTable'') r)) df)"

definition reconcile_year_season :: "frame \<Rightarrow> frame" where
  "reconcile_year_season df =
     drop_column (Lab ''season'')
       (filter_rows (\<lambda>r. series_eq (cell (columns df) (Lab ''year'') r)
                                     (cell (columns df) (Lab ''season'') r)) df)"

definition clean_dataframe :: "frame \<Rightarrow> exn + frame" where
  "clean_dataframe df =
     (let df1 = (if Lab ''ConstructorTable'' \<in> set (columns df) then remove_year_rows df else df);
          safe_columns = filter (\<lambda>col. col \<noteq> Lab ''ConstructorTable'') (columns df1)
      in case (if safe_columns \<noteq> [] then drop_duplicates safe_columns df1 else Inr df1) of
           Inl e \<Rightarrow> Inl e
         | Inr df2 \<Rightarrow>
             if Lab ''year'' \<in> set (columns df2) \<and> Lab ''season'' \<in> set (columns df2)
             then Inr (reconcile_year_season df2)
             else Inr df2)"

section \<open>The constructor field expander\<close>

text \<open>
  The body of the outer \<^verbatim>\<open>try\<close> of \<^verbatim>\<open>normalize_constructor_data\<close> (lines 67 to 101).
  An exception of the resolver leaves \<^verbatim>\<open>apply\<close> at line 74, before the table is touched.
  An exception of the join at line 93 is caught by the inner handler, which drops the
  intermediate column (line 97).
\<close>

definition normalize_body :: "parsers \<Rightarrow> frame \<Rightarrow> exn + frame" where
  "normalize_body P df =
     (if Lab ''ConstructorTable'' \<notin> set (columns df) then Inr df
      else
        case apply_series (validate_constructor_data P)
               (column_values (Lab ''ConstructorTable'') df) of
          Inl e \<Rightarrow> Inl e
        | Inr resolved \<Rightarrow>
            (let df1 = assign_column (Lab ''ConstructorTable'') (map PList resolved) df;
                 df2 = assign_column (Lab ''constructor_data'')
                         (map (\<lambda>x. select_ferrari (as_list x))
                              (column_values (Lab ''ConstructorTable'') df1)) df1;
                 df3 = drop_column (Lab ''ConstructorTable'') df2
             in if \<not> empty_frame df3 \<and>
                   (case column_values (Lab ''constructor_data'') df3 of
                      [] \<Rightarrow> False
                    | v # _ \<Rightarrow> truthy v)
                then
                  (case concat_axis1 (drop_column (Lab ''constructor_data'') df3)
                          (json_normalize (column_values (Lab ''constructor_data'') df3)) of
                     Inl e \<Rightarrow> Inr (drop_column (Lab ''constructor_data'') df3)
                   | Inr df4 \<Rightarrow> Inr df4)
                else Inr (drop_column (Lab ''constructor_data'') df3)))"

text \<open>
  The outer handler, \<^verbatim>\<open>except Exception: return df\<close>: when the exception arrives,
  \<^verbatim>\<open>df\<close> is still the table that was passed in.
\<close>

definition normalize_constructor_data :: "parsers \<Rightarrow> frame \<Rightarrow> frame" where
  "normalize_constructor_data P df =
     (case normalize_body P df of Inl e \<Rightarrow> df | Inr r \<Rightarrow> r)"

section \<open>The request handler\<close>

text \<open>
  The pipeline result as the handler reads it: \<^verbatim>\<open>success\<close>, \<^verbatim>\<open>data\<close> (a dict or
  \<^verbatim>\<open>None\<close>), \<^verbatim>\<open>error\<close> (a text or \<^verbatim>\<open>None\<close>) and \<^verbatim>\<open>metadata\<close>. The entry
  \<^verbatim>\<open>data['results']\<close> is a table or a plain Python value.
\<close>

datatype payload = Table frame | Plain pyval

record pipeline_result =
  success :: bool
  data :: "(string \<times> payload) list option"
  error :: "string option"
  metadata :: pyval

text \<open>The two shapes of the response dict.\<close>

datatype response =
    Success (result_data: pyval) (executed_code: string) (query_trace: pyval)
            (processing_time: real) (result_metadata: pyval)
  | Failure (error_label: string) (details: string) (processing_time: real)

text \<open>
  The collaborators are imported from other modules (\<^verbatim>\<open>QueryProcessor\<close>,
  \<^verbatim>\<open>OptimizedQueryAdapter\<close>, \<^verbatim>\<open>DataPipeline\<close>, \<^verbatim>\<open>OptimizedResultAdapter\<close>,
  \<^verbatim>\<open>generate_code\<close>, \<^verbatim>\<open>execute_code_safely\<close>). Each is a parameter that returns its
  value or the exception it raises. \<open>py_str\<close> is Python's \<^verbatim>\<open>str\<close> on the execution
  result, \<open>start_time\<close> and \<open>end_time\<close> are the two readings of the clock
  (\<^verbatim>\<open>datetime.now().timestamp()\<close> at line 142 and in the returned dict).
\<close>

record ('i, 'a, 'd, 'w) collaborators =
  process_query :: "string \<Rightarrow> exn + 'i"
  trace_of :: "'i \<Rightarrow> pyval"
  adapt :: "'i \<Rightarrow> exn + 'a"
  to_data_requirements :: "'a \<Rightarrow> exn + 'd"
  process :: "'d \<Rightarrow> exn + 'w"
  adapt_pipeline_result :: "'w \<Rightarrow> real \<Rightarrow> exn + pipeline_result"
  generate_code :: "frame \<Rightarrow> string \<Rightarrow> exn + string"
  execute_code_safely :: "string \<Rightarrow> frame \<Rightarrow> exn + (bool \<times> pyval \<times> string)"
  py_str :: "pyval \<Rightarrow> string"
  text_parsers :: parsers
  start_time :: real
  end_time :: real

text \<open>The stages of one request, recorded in the order in which the handler enters them.\<close>

datatype stage =
    Interpret
  | AdaptQuery
  | Requirements
  | Fetch
  | AdaptResult
  | Coerce
  | Clean
  | Expand
  | GenerateCode
  | ExecuteCode

definition stage_call ::
  "stage \<Rightarrow> (exn + 'x) \<Rightarrow> ('x \<Rightarrow> (exn + 'y) \<times> stage list) \<Rightarrow> (exn + 'y) \<times> stage list" where
  "stage_call st r k =
     (case r of
        Inl e \<Rightarrow> (Inl e, [st])
      | Inr x \<Rightarrow> (case k x of (res, steps) \<Rightarrow> (res, st # steps)))"

text \<open>
  \<^verbatim>\<open>str(e)\<close>: the message of a Python exception; for Starlette's \<^verbatim>\<open>HTTPException\<close> the
  status code, a colon and the detail.
\<close>

fun decimal :: "nat \<Rightarrow> string" where
  "decimal n =
     (if n < 10 then [char_of (48 + n)]
      else decimal (n div 10) @ [char_of (48 + n mod 10)])"

declare decimal.simps [simp del]

fun str_exn :: "exn \<Rightarrow> string" where
  "str_exn (HTTPException status detail) = decimal status @ '': '' @ detail"
| "str_exn (PyError c msg) = msg"

text \<open>\<^verbatim>\<open>type(results)\<close> as the f-string of line 189 prints it.\<close>

fun type_name :: "pyval \<Rightarrow> string" where
  "type_name PNone = ''NoneType''"
| "type_name (PBool _) = ''bool''"
| "type_name (PInt _) = ''int''"
| "type_name (PFloat _) = ''float''"
| "type_name PNaN = ''float''"
| "type_name (PStr _) = ''str''"
| "type_name (PList _) = ''list''"
| "type_name (PDict _) = ''dict''"

definition class_repr :: "pyval \<Rightarrow> string" where
  "class_repr v = ''<class '' @ [CHR 0x27] @ type_name v @ [CHR 0x27] @ ''>''"

text \<open>
  Lines 180 to 189:
  \<^verbatim>\<open>
  if isinstance(results, pd.DataFrame):  df = results
  elif isinstance(results, dict):        df = pd.DataFrame([results])
  elif isinstance(results, list):        df = pd.DataFrame(results)
  else: raise ValueError(f"Cannot process results of type: {type(results)}")
  \<close>
\<close>

definition coerce_results :: "payload \<Rightarrow> exn + frame" where
  "coerce_results results =
     (case results of
        Table df \<Rightarrow> Inr df
      | Plain (PDict d) \<Rightarrow> DataFrame_list [PDict d]
      | Plain (PList xs) \<Rightarrow> DataFrame_list xs
      | Plain v \<Rightarrow>
          Inl (PyError ValueError (''Cannot process results of type: '' @ class_repr v)))"

text \<open>
  The inner \<^verbatim>\<open>try\<close> (lines 178 to 207): coercion, cleaning, expansion and the check for an
  empty table; any exception in it, the \<^verbatim>\<open>HTTPException\<close> of line 203 included, is raised
  again as an \<^verbatim>\<open>HTTPException\<close> whose detail starts with \<^verbatim>\<open>Failed to process data: \<close>.
\<close>

definition process_dataframe :: "parsers \<Rightarrow> payload \<Rightarrow> (exn + frame) \<times> stage list" where
  "process_dataframe P results =
     (case
        stage_call Coerce (coerce_results results) (\<lambda>df.
        stage_call Clean (clean_dataframe df) (\<lambda>df1.
        stage_call Expand (Inr (normalize_constructor_data P df1)) (\<lambda>df2.
          if empty_frame df2
          then (Inl (HTTPException 400 ''No data available after processing''), [])
          else (Inr df2, []))))
      of
        (Inl e, steps) \<Rightarrow> (Inl (HTTPException 400 (''Failed to process data: '' @ str_exn e)), steps)
      | (Inr df, steps) \<Rightarrow> (Inr df, steps))"

text \<open>
  The body of the outer \<^verbatim>\<open>try\<close> of \<^verbatim>\<open>analyze_f1_data\<close> (lines 142 to 232). The
  \<^verbatim>\<open>logger\<close> calls are left out; the one at line 176 serialises \<^verbatim>\<open>results\<close> with
  \<^verbatim>\<open>json.dumps(results, default=str)\<close>, which cannot fail on the values of this model.
\<close>

definition analyze_body ::
  "('i, 'a, 'd, 'w) collaborators \<Rightarrow> string \<Rightarrow> (exn + response) \<times> stage list" where
  "analyze_body C query =
     stage_call Interpret (process_query C query) (\<lambda>query_result.
     stage_call AdaptQuery (adapt C query_result) (\<lambda>adapted_result.
     stage_call Requirements (to_data_requirements C adapted_result) (\<lambda>requirements.
     stage_call Fetch (process C requirements) (\<lambda>pipeline_response.
     stage_call AdaptResult
       (adapt_pipeline_result C pipeline_response (start_time C)) (\<lambda>pipeline_result.
       case (if success pipeline_result then data pipeline_result else None) of
         None \<Rightarrow>
           (Inl (HTTPException 400
                  (''Pipeline processing failed: '' @
                   (case error pipeline_result of
                      None \<Rightarrow> ''No data returned''
                    | Some msg \<Rightarrow> if msg = [] then ''No data returned'' else msg))), [])
       | Some d \<Rightarrow>
           (let results = (case map_of d ''results'' of
                             Some r \<Rightarrow> r
                           | None \<Rightarrow> Plain (PDict []))
            in case process_dataframe (text_parsers C) results of
                 (Inl e, steps) \<Rightarrow> (Inl e, steps)
               | (Inr df, steps) \<Rightarrow>
                   (case
                      stage_call GenerateCode (generate_code C df query) (\<lambda>code.
                      stage_call ExecuteCode (execute_code_safely C code df) (\<lambda>outcome.
                        case outcome of
                          (ok, result, executed) \<Rightarrow>
                            if \<not> ok
                            then (Inl (HTTPException 400
                                         (''Code execution failed: '' @ py_str C result)), [])
                            else (Inr (Success result executed (trace_of C query_result)
                                         (end_time C - start_time C)
                                         (metadata pipeline_result)), [])))
                    of (res, steps') \<Rightarrow> (res, steps @ steps'))))))))"

text \<open>
  The two handlers of the outer \<^verbatim>\<open>try\<close> (lines 234 to 249): both return the failure dict
  with the label \<^verbatim>\<open>Analysis failed\<close> and the elapsed time.
\<close>

definition analyze_f1_data ::
  "('i, 'a, 'd, 'w) collaborators \<Rightarrow> string \<Rightarrow> response \<times> stage list" where
  "analyze_f1_data C query =
     (case analyze_body C query of
        (Inr resp, steps) \<Rightarrow> (resp, steps)
      | (Inl (HTTPException status detail), steps) \<Rightarrow>
          (Failure ''Analysis failed'' detail (end_time C - start_time C), steps)
      | (Inl e, steps) \<Rightarrow>
          (Failure ''Analysis failed'' (str_exn e) (end_time C - start_time C), steps))"

section \<open>Sample inputs\<close>

text \<open>
  The cell of the specification's example,
  \<^verbatim>\<open>[{"constructorId":"ferrari","points":90},{"constructorId":"mclaren","points":50}]\<close>,
  as a text and as the list it encodes.
\<close>

definition quoted :: "string \<Rightarrow> string" where
  "quoted s = [CHR 0x22] @ s @ [CHR 0x22]"

definition ferrari_text :: string where
  "ferrari_text =
     ''[{'' @ quoted ''constructorId'' @ '':'' @ quoted ''ferrari'' @ '','' @ quoted ''points''
     @ '':90},{'' @ quoted ''constructorId'' @ '':'' @ quoted ''mclaren'' @ '','' @
     quoted ''points'' @ '':50}]''"

definition ferrari_record :: pyval where
  "ferrari_record = PDict [(''constructorId'', PStr ''ferrari''), (''points'', PInt 90)]"

definition mclaren_record :: pyval where
  "mclaren_record = PDict [(''constructorId'', PStr ''mclaren''), (''points'', PInt 50)]"

definition ferrari_list :: pyval where
  "ferrari_list = PList [ferrari_record, mclaren_record]"

text \<open>
  What CPython's \<^verbatim>\<open>json.loads\<close> and \<^verbatim>\<open>ast.literal_eval\<close> do on the texts used below:
  both parse the example cell and \<^verbatim>\<open>2021\<close>; on \<^verbatim>\<open>{[1]: 2}\<close> the first raises
  \<^verbatim>\<open>JSONDecodeError\<close> (a property name must be quoted) and the second raises
  \<^verbatim>\<open>TypeError: unhashable type: 'list'\<close> (a list as a dict key); on \<^verbatim>\<open>nonsense\<close> the
  first raises \<^verbatim>\<open>JSONDecodeError\<close> and the second \<^verbatim>\<open>ValueError\<close>. No other text is
  passed to these two functions in this file.
\<close>

definition sample_parsers :: parsers where
  "sample_parsers =
     \<lparr>json_loads = (\<lambda>s.
        if s = ferrari_text then Inr ferrari_list
        else if s = ''2021'' then Inr (PInt 2021)
        else Inl (PyError JSONDecodeError ''Expecting value'')),
      literal_eval = (\<lambda>s.
        if s = ferrari_text then Inr ferrari_list
        else if s = ''2021'' then Inr (PInt 2021)
        else if s = ''{[1]: 2}'' then Inl (PyError TypeError ''unhashable type'')
        else Inl (PyError ValueError ''malformed node or string''))\<rparr>"

text \<open>
  Collaborators that all succeed: the result adapter returns the given pipeline result, the
  generated code counts the rows and its execution returns that count.
\<close>

definition sample_collaborators :: "pipeline_result \<Rightarrow> (unit, unit, unit, unit) collaborators" where
  "sample_collaborators pr =
     \<lparr>process_query = (\<lambda>q. Inr ()),
      trace_of = (\<lambda>i. PList [PStr ''trace'']),
      adapt = (\<lambda>i. Inr ()),
      to_data_requirements = (\<lambda>a. Inr ()),
      process = (\<lambda>d. Inr ()),
      adapt_pipeline_result = (\<lambda>w t. Inr pr),
      generate_code = (\<lambda>df q. Inr ''result = len(df)''),
      execute_code_safely = (\<lambda>code df. Inr (True, PInt (int (length (rows df))), code)),
      py_str = (\<lambda>v. ''result''),
      text_parsers = sample_parsers,
      start_time = 10,
      end_time = 12\<rparr>"


text \<open>
  A table whose constructor-list cell is the text \<^verbatim>\<open>{[1]: 2}\<close>; the two records the
  pipeline may return (the first with a stray year as its constructor-list cell); the table the
  cleaner leaves of them, its only row labelled \<open>1\<close>; a failed pipeline result.
\<close>

definition unparsable_table :: frame where
  "unparsable_table =
     \<lparr>columns = [Lab ''year'', Lab ''ConstructorTable''],
      rows = [(0, [PInt 2021, PStr ''{[1]: 2}''])]\<rparr>"

definition two_records :: "pyval list" where
  "two_records =
     [PDict [(''year'', PInt 2020), (''ConstructorTable'', PStr ''2021'')],
      PDict [(''year'', PInt 2021), (''ConstructorTable'', PStr ferrari_text)]]"

definition two_row_table :: frame where
  "two_row_table =
     \<lparr>columns = [Lab ''year'', Lab ''ConstructorTable''],
      rows = [(0, [PInt 2020, PStr ''2021'']), (1, [PInt 2021, PStr ferrari_text])]\<rparr>"

definition shifted_table :: frame where
  "shifted_table =
     \<lparr>columns = [Lab ''year'', Lab ''ConstructorTable''],
      rows = [(1, [PInt 2021, PStr ferrari_text])]\<rparr>"

definition failed_result :: pipeline_result where
  "failed_result =
     \<lparr>success = True, data = None, error = Some ''upstream timeout'', metadata = PDict []\<rparr>"


text \<open>\<^verbatim>\<open>isinstance(v, list)\<close>.\<close>

fun is_list :: "pyval \<Rightarrow> bool" where
  "is_list (PList _) = True"
| "is_list _ = False"

text \<open>
  A table with a \<^verbatim>\<open>year\<close> and a \<^verbatim>\<open>season\<close> column (a stray year in the first row, a
  duplicate of the second row in the third, a mismatch in the fourth, a missing season in the
  fifth) and what the cleaner leaves of it; a table whose only row has a stray year as its
  constructor-list cell.
\<close>

definition season_table :: frame where
  "season_table =
     \<lparr>columns = [Lab ''year'', Lab ''ConstructorTable'', Lab ''season''],
      rows = [(0, [PInt 2020, PStr ''2021'', PInt 2020]),
              (1, [PInt 2021, PStr ferrari_text, PInt 2021]),
              (2, [PInt 2021, PStr ''x'', PFloat 2021]),
              (3, [PInt 2021, PStr ''y'', PInt 2020]),
              (4, [PInt 2019, PNone, PNaN])]\<rparr>"

definition season_cleaned :: frame where
  "season_cleaned =
     \<lparr>columns = [Lab ''year'', Lab ''ConstructorTable''],
      rows = [(1, [PInt 2021, PStr ferrari_text])]\<rparr>"

definition stray_table :: frame where
  "stray_table =
     \<lparr>columns = [Lab ''ConstructorTable'', Lab ''year''],
      rows = [(0, [PStr ''2021'', PInt 2021])]\<rparr>"



text \<open>A table of one row, labelled 0, whose cell is the text of the two-record example.\<close>

definition example_table :: frame where
  "example_table =
     \<lparr>columns = [Lab ''year'', Lab ''ConstructorTable''],
      rows = [(0, [PInt 2021, PStr ferrari_text])]\<rparr>"

section \<open>Selection of the target constructor\<close>

lemma select_ferrari_skip:
  "\<forall>x \<in> set before. \<not> is_ferrari x \<Longrightarrow> select_ferrari (before @ rest) = select_ferrari rest"
  by (induction before) auto

lemma select_ferrari_result:
  "select_ferrari x = PDict [] \<or> (select_ferrari x \<in> set x \<and> is_ferrari (select_ferrari x))"
  by (induction x) auto

lemma is_ferrari_is_dict: "is_ferrari v \<Longrightarrow> is_dict v"
  by (cases v) auto

text \<open>
  Claim C10. When the resolved list holds several entries whose \<^verbatim>\<open>constructorId\<close> is
  \<^verbatim>\<open>ferrari\<close>, the first of them in list order is selected, whatever follows it. An
  entry that is not a dict is skipped: taking it out of the list does not change the selection,
  and the selected value is either the empty dict or a dict of the list that matches.
\<close>

theorem select_ferrari_first_match:
  "(is_ferrari item \<and> (\<forall>x \<in> set before. \<not> is_ferrari x)
      \<longrightarrow> select_ferrari (before @ item # after) = item)
   \<and> (\<not> is_dict y \<longrightarrow> select_ferrari (before @ y # after) = select_ferrari (before @ after))
   \<and> (select_ferrari x = PDict [] \<or>
        (select_ferrari x \<in> set x \<and> is_dict (select_ferrari x) \<and> is_ferrari (select_ferrari x)))"
proof (intro conjI impI)
  assume "is_ferrari item \<and> (\<forall>x \<in> set before. \<not> is_ferrari x)"
  then show "select_ferrari (before @ item # after) = item"
    by (simp add: select_ferrari_skip)
next
  assume "\<not> is_dict y"
  then have "\<not> is_ferrari y" using is_ferrari_is_dict by blast
  then show "select_ferrari (before @ y # after) = select_ferrari (before @ after)"
    by (induction before) auto
next
  show "select_ferrari x = PDict [] \<or>
        (select_ferrari x \<in> set x \<and> is_dict (select_ferrari x) \<and> is_ferrari (select_ferrari x))"
    using select_ferrari_result [of x] is_ferrari_is_dict by blast
qed

theorem select_ferrari_first_match_witness:
  "select_ferrari ([PInt 5, mclaren_record] @ ferrari_record #
       [PDict [(''constructorId'', PStr ''ferrari''), (''points'', PInt 10)]]) = ferrari_record
   \<and> select_ferrari ([mclaren_record] @ PStr ''ferrari'' # [ferrari_record])
       = select_ferrari ([mclaren_record] @ [ferrari_record])
   \<and> select_ferrari [PStr ''ferrari'', PList [ferrari_record]] = PDict []"
proof -
  have a: "is_ferrari ferrari_record \<and> (\<forall>x \<in> set [PInt 5, mclaren_record]. \<not> is_ferrari x)"
    by (simp add: ferrari_record_def mclaren_record_def)
  have b: "\<not> is_dict (PStr ''ferrari'')" by simp
  have c: "select_ferrari [PStr ''ferrari'', PList [ferrari_record]] = PDict []" by simp
  show ?thesis
    using select_ferrari_first_match [of ferrari_record "[PInt 5, mclaren_record]"
        "[PDict [(''constructorId'', PStr ''ferrari''), (''points'', PInt 10)]]"
        "PStr ''ferrari''" "[PStr ''ferrari'', PList [ferrari_record]]"]
      select_ferrari_first_match [of ferrari_record "[mclaren_record]" "[ferrari_record]"
        "PStr ''ferrari''" "[]"] a b c
    by blast
qed

section \<open>The resolver and the exceptions it lets through\<close>

text \<open>
  What holds of the resolver for every pair of parsers: a list comes back as it is, any other
  value that is not a text gives the empty list, a text that the JSON parser accepts gives the
  parsed list (or the empty list when it parsed to something else), and after a
  \<^verbatim>\<open>JSONDecodeError\<close> the literal parser is asked.
\<close>

lemma validate_constructor_data_list: "validate_constructor_data P (PList xs) = Inr xs"
  by (simp add: validate_constructor_data_def)

lemma validate_constructor_data_other:
  "\<forall>s. v \<noteq> PStr s \<Longrightarrow> validate_constructor_data P v = Inr (as_list v)"
  by (cases v) (simp_all add: validate_constructor_data_def)

lemma validate_constructor_data_json:
  "json_loads P s = Inr v \<Longrightarrow> validate_constructor_data P (PStr s) = Inr (as_list v)"
  by (simp add: validate_constructor_data_def)

lemma validate_constructor_data_fallback:
  "json_loads P s = Inl e \<Longrightarrow> is_JSONDecodeError e \<Longrightarrow>
   validate_constructor_data P (PStr s) =
     (case literal_eval P s of
        Inr v \<Rightarrow> Inr (as_list v)
      | Inl e' \<Rightarrow> if is_ValueError_or_SyntaxError e' then Inr [] else Inl e')"
  by (simp add: validate_constructor_data_def)

text \<open>
  Claim C8. The resolver does not keep every parse fault inside: on the text
  \<^verbatim>\<open>{[1]: 2}\<close> the JSON parser fails, the literal parser raises \<^verbatim>\<open>TypeError\<close>, which
  \<^verbatim>\<open>except (ValueError, SyntaxError)\<close> does not catch, and the exception leaves
  \<open>validate_constructor_data\<close>.
\<close>

theorem validate_constructor_data_raises:
  "validate_constructor_data sample_parsers (PStr ''{[1]: 2}'')
     = Inl (PyError TypeError ''unhashable type'')"
  by (simp add: validate_constructor_data_def sample_parsers_def ferrari_text_def quoted_def
      is_JSONDecodeError_def is_ValueError_or_SyntaxError_def)

text \<open>
  Claim C2. On a table with that cell the expander raises nothing, but what it returns is the
  table it was given, the constructor-list column still in it: the exception reaches the outer
  handler before the column is dropped.
\<close>

theorem normalize_constructor_data_keeps_column:
  "normalize_constructor_data sample_parsers unparsable_table = unparsable_table
   \<and> Lab ''ConstructorTable'' \<in> set (columns (normalize_constructor_data sample_parsers
         unparsable_table))"
  by code_simp

section \<open>Expansion of a table whose rows are not labelled from zero\<close>

text \<open>
  Claim C4. The cleaner removes the first of the two records (its constructor-list cell is the
  stray year \<^verbatim>\<open>2021\<close>) and leaves the example cell in a row labelled \<open>1\<close>. The expander
  flattens the selected record into a fresh table labelled \<open>0\<close> and joins the two on their
  labels: the row of the example cell gets NaN under \<^verbatim>\<open>points\<close>, and the value \<open>90\<close>
  stands in a new row of its own.
\<close>

theorem normalize_constructor_data_misaligned:
  "coerce_results (Plain (PList two_records)) = Inr two_row_table
   \<and> clean_dataframe two_row_table = Inr shifted_table
   \<and> normalize_constructor_data sample_parsers shifted_table =
       \<lparr>columns = [Lab ''year'', Lab ''constructorId'', Lab ''points''],
        rows = [(1, [PInt 2021, PNaN, PNaN]), (0, [PNaN, PStr ''ferrari'', PInt 90])]\<rparr>"
  by code_simp

section \<open>The request handler: a failed pipeline result\<close>

text \<open>
  Claim C3. When the adapted pipeline result has \<^verbatim>\<open>success\<close> false or no \<^verbatim>\<open>data\<close>
  (whatever the flag says), the handler returns the failure response with the label
  \<^verbatim>\<open>Analysis failed\<close>, the details end with the adapter's error text when there is one, and
  the stages entered are the five up to the result adapter: no coercion, no code generation, no
  execution.
\<close>

theorem pipeline_failure_short_circuits:
  assumes "process_query C q = Inr i" and "adapt C i = Inr a"
    and "to_data_requirements C a = Inr d" and "process C d = Inr w"
    and "adapt_pipeline_result C w (start_time C) = Inr pr"
    and "\<not> success pr \<or> data pr = None"
  shows "analyze_f1_data C q =
           (Failure ''Analysis failed''
              (''Pipeline processing failed: '' @
               (case error pr of
                  None \<Rightarrow> ''No data returned''
                | Some msg \<Rightarrow> if msg = [] then ''No data returned'' else msg))
              (end_time C - start_time C),
            [Interpret, AdaptQuery, Requirements, Fetch, AdaptResult])
         \<and> (\<forall>msg. error pr = Some msg \<longrightarrow>
               (\<exists>pre. details (fst (analyze_f1_data C q)) = pre @ msg))"
proof -
  have body: "analyze_body C q =
      (Inl (HTTPException 400 (''Pipeline processing failed: '' @
               (case error pr of
                  None \<Rightarrow> ''No data returned''
                | Some msg \<Rightarrow> if msg = [] then ''No data returned'' else msg))),
       [Interpret, AdaptQuery, Requirements, Fetch, AdaptResult])"
    using assms by (auto simp: analyze_body_def stage_call_def)
  then have res: "analyze_f1_data C q =
           (Failure ''Analysis failed''
              (''Pipeline processing failed: '' @
               (case error pr of
                  None \<Rightarrow> ''No data returned''
                | Some msg \<Rightarrow> if msg = [] then ''No data returned'' else msg))
              (end_time C - start_time C),
            [Interpret, AdaptQuery, Requirements, Fetch, AdaptResult])"
    by (simp add: analyze_f1_data_def)
  have "\<exists>pre. details (fst (analyze_f1_data C q)) = pre @ msg" if "error pr = Some msg" for msg
  proof (cases "msg = []")
    case True
    then show ?thesis by simp
  next
    case False
    with that res show ?thesis by simp
  qed
  with res show ?thesis by blast
qed

theorem pipeline_failure_short_circuits_witness:
  "analyze_f1_data (sample_collaborators failed_result) ''podiums'' =
     (Failure ''Analysis failed'' ''Pipeline processing failed: upstream timeout'' 2,
      [Interpret, AdaptQuery, Requirements, Fetch, AdaptResult])"
proof -
  have h: "\<not> success failed_result \<or> data failed_result = None"
    by (simp add: failed_result_def)
  have "error failed_result = Some ''upstream timeout''"
    by (simp add: failed_result_def)
  with pipeline_failure_short_circuits [of "sample_collaborators failed_result" "''podiums''"
      "()" "()" "()" "()" failed_result, OF _ _ _ _ _ h]
  show ?thesis by (simp add: sample_collaborators_def)
qed

section \<open>The request handler: every fault becomes the failure response\<close>







section \<open>First occurrences and the table constructor\<close>

lemma keep_first_subset: "set (keep_first key xs) \<subseteq> set xs"
  by (induction key xs rule: keep_first.induct) auto

lemma keep_first_distinct_keys: "distinct (map key (keep_first key xs))"
proof (induction key xs rule: keep_first.induct)
  case (1 key)
  then show ?case by simp
next
  case (2 key x xs)
  have "key x \<notin> key ` set (keep_first key (filter (\<lambda>y. key y \<noteq> key x) xs))"
    using keep_first_subset [of key "filter (\<lambda>y. key y \<noteq> key x) xs"] by auto
  with 2 show ?case by simp
qed



lemma keep_first_of_distinct: "distinct (map key xs) \<Longrightarrow> keep_first key xs = xs"
proof (induction xs)
  case Nil
  then show ?case by simp
next
  case (Cons x xs)
  then have "\<forall>y \<in> set xs. key y \<noteq> key x"
    by (metis distinct.simps(2) image_eqI list.simps(9) set_map)
  then have "filter (\<lambda>y. key y \<noteq> key x) xs = xs"
    by (simp add: filter_id_conv)
  with Cons show ?case by simp
qed


lemma length_infer_column: "length (infer_column vs) = length vs"
  by (simp add: infer_column_def)














section \<open>Coercion of the payload into a table\<close>






section \<open>Rows as cells under labels\<close>

lemma cell_map: "x \<in> set cs \<Longrightarrow> cell cs x (map g cs) = g x"
  by (simp add: cell_def map_of_zip_map)

lemma cell_Cons_other: "x \<noteq> a \<Longrightarrow> cell (a # cs) x (v # r) = cell cs x r"
  by (simp add: cell_def)

lemma row_as_cells:
  "distinct cs \<Longrightarrow> length r = length cs \<Longrightarrow> map (\<lambda>x. cell cs x r) cs = r"
proof (induction cs arbitrary: r)
  case Nil
  then show ?case by simp
next
  case (Cons a cs)
  then obtain v r' where r: "r = v # r'" by (cases r) auto
  have tl: "map (\<lambda>x. cell (a # cs) x (v # r')) cs = map (\<lambda>x. cell cs x r') cs"
  proof (rule map_cong [OF refl])
    fix x assume "x \<in> set cs"
    with Cons.prems have "x \<noteq> a" by auto
    then show "cell (a # cs) x (v # r') = cell cs x r'" by (rule cell_Cons_other)
  qed
  have hd: "cell (a # cs) a (v # r') = v" by (simp add: cell_def)
  have "map (\<lambda>x. cell cs x r') cs = r'"
    using Cons.IH [of r'] Cons.prems r by simp
  with tl have "map (\<lambda>x. cell (a # cs) x (v # r')) cs = r'" by (rule trans)
  with hd r show ?case by simp
qed

lemma drop_cells_map: "drop_cells cs c (map g cs) = map g (filter (\<lambda>l. l \<noteq> c) cs)"
  unfolding drop_cells_def by (induction cs) auto

lemma drop_cells_as_cells:
  assumes "distinct cs" and "length r = length cs"
  shows "drop_cells cs c r = map (\<lambda>x. cell cs x r) (filter (\<lambda>l. l \<noteq> c) cs)"
proof -
  have "drop_cells cs c (map (\<lambda>x. cell cs x r) cs)
      = map (\<lambda>x. cell cs x r) (filter (\<lambda>l. l \<noteq> c) cs)"
    by (rule drop_cells_map)
  with row_as_cells [OF assms] show ?thesis by simp
qed

lemma cell_drop_cells:
  assumes "distinct cs" and "length r = length cs" and "x \<in> set cs" and "x \<noteq> c"
  shows "cell (filter (\<lambda>l. l \<noteq> c) cs) x (drop_cells cs c r) = cell cs x r"
  using assms by (simp add: drop_cells_as_cells cell_map)

lemma series_eq_iff_key:
  "cell_key False a \<noteq> None \<Longrightarrow> cell_key False b \<noteq> None \<Longrightarrow>
   series_eq a b = (cell_key False a = cell_key False b \<and> cell_key False a \<noteq> Some KNone)"
  by (cases a; cases b) (auto simp: series_eq_def)

lemma two_columns_not_single:
  "a \<in> set cs \<Longrightarrow> b \<in> set cs \<Longrightarrow> a \<noteq> b \<Longrightarrow> length cs \<noteq> 1"
  by (cases cs) auto

section \<open>The steps of the cleaner\<close>

lemma frame_eqI: "columns (A::frame) = columns B \<Longrightarrow> rows A = rows B \<Longrightarrow> A = B"
  by simp

lemma wf_frame_row: "wf_frame T \<Longrightarrow> r \<in> set (rows T) \<Longrightarrow> length (snd r) = length (columns T)"
  by (simp add: wf_frame_def list_all_iff)

lemma clean_dataframe_steps:
  assumes c: "clean_dataframe T = Inr T'"
      and n: "\<not> (Lab ''ConstructorTable'' \<in> set (columns T) \<and> rows T = [])"
      and s: "filter (\<lambda>col. col \<noteq> Lab ''ConstructorTable'') (columns T) \<noteq> []"
  defines "rows1 \<equiv> filter (\<lambda>r. Lab ''ConstructorTable'' \<in> set (columns T) \<longrightarrow>
                      \<not> is_year_number (cell (columns T) (Lab ''ConstructorTable'') (snd r))) (rows T)"
      and "key \<equiv> (\<lambda>r. row_key (columns T)
                      (filter (\<lambda>col. col \<noteq> Lab ''ConstructorTable'') (columns T)) (snd r))"
  shows "(\<forall>r \<in> set rows1. None \<notin> set (key r))
       \<and> T' = (if Lab ''year'' \<in> set (columns T) \<and> Lab ''season'' \<in> set (columns T)
               then reconcile_year_season \<lparr>columns = columns T, rows = keep_first key rows1\<rparr>
               else \<lparr>columns = columns T, rows = keep_first key rows1\<rparr>)"
proof -
  let ?CT = "Lab ''ConstructorTable''"
  let ?df1 = "\<lparr>columns = columns T, rows = rows1\<rparr>"
  let ?safe = "filter (\<lambda>col. col \<noteq> ?CT) (columns T)"
  have df1: "(if ?CT \<in> set (columns T) then remove_year_rows T else T) = ?df1"
    using n by (auto simp: remove_year_rows_def filter_rows_def rows1_def)
  have cols: "columns T \<noteq> []" using s by auto
  have dd: "drop_duplicates ?safe ?df1 =
      (if rows1 = [] then Inr ?df1
       else if list_ex (\<lambda>r. None \<in> set (key r)) rows1
       then Inl (PyError TypeError ''unhashable type'')
       else Inr \<lparr>columns = columns T, rows = keep_first key rows1\<rparr>)"
    using cols by (simp add: drop_duplicates_def empty_frame_def key_def)
  have cl: "clean_dataframe T =
      (case drop_duplicates ?safe ?df1 of
         Inl e \<Rightarrow> Inl e
       | Inr df2 \<Rightarrow>
           if Lab ''year'' \<in> set (columns df2) \<and> Lab ''season'' \<in> set (columns df2)
           then Inr (reconcile_year_season df2) else Inr df2)"
    using s by (simp add: clean_dataframe_def df1 Let_def)
  show ?thesis
  proof (cases "rows1 = []")
    case True
    with c cl dd show ?thesis by (auto split: if_splits)
  next
    case False
    with c cl dd have nl: "\<not> list_ex (\<lambda>r. None \<in> set (key r)) rows1"
      by (auto split: if_splits)
    with False c cl dd show ?thesis by (auto simp: list_ex_iff split: if_splits)
  qed
qed

lemma clean_dataframe_no_rows:
  "Lab ''ConstructorTable'' \<in> set (columns T) \<Longrightarrow> rows T = [] \<Longrightarrow>
   clean_dataframe T = Inr \<lparr>columns = [], rows = []\<rparr>"
  by (simp add: clean_dataframe_def remove_year_rows_def)



text \<open>
  Claim C5. Cleaning is not idempotent on a table that the first pass empties: the first pass
  removes the only row and keeps both columns; on the second pass the mask computed by
  \<^verbatim>\<open>apply\<close> on the empty column is an empty series of the column's own storage type, which
  \<^verbatim>\<open>df[...]\<close> reads as an empty list of column labels, so the table loses its columns.
\<close>

theorem clean_dataframe_not_idempotent:
  "clean_dataframe stray_table =
     Inr \<lparr>columns = [Lab ''ConstructorTable'', Lab ''year''], rows = []\<rparr>
   \<and> clean_dataframe \<lparr>columns = [Lab ''ConstructorTable'', Lab ''year''], rows = []\<rparr>
       = Inr \<lparr>columns = [], rows = []\<rparr>"
  by code_simp

section \<open>The expander step by step\<close>

lemma apply_series_length: "apply_series f xs = Inr ys \<Longrightarrow> length ys = length xs"
  by (induction xs arbitrary: ys) (auto split: sum.splits)

lemma set_cell_map:
  "set_cell cs c v (map g cs) =
     map (\<lambda>x. if x = c then v else g x) (if c \<in> set cs then cs else cs @ [c])"
proof -
  have "map (\<lambda>p. if fst p = c then v else snd p) (zip cs (map g cs))
      = map (\<lambda>x. if x = c then v else g x) cs"
    by (induction cs) auto
  then show ?thesis by (auto simp: set_cell_def)
qed

lemma wf_frame_canonical:
  assumes "wf_frame T"
  shows "T = \<lparr>columns = columns T,
              rows = map (\<lambda>r. (fst r, map (\<lambda>x. cell (columns T) x (snd r)) (columns T))) (rows T)\<rparr>"
proof -
  have "map (\<lambda>r. (fst r, map (\<lambda>x. cell (columns T) x (snd r)) (columns T))) (rows T)
      = map (\<lambda>r. r) (rows T)"
  proof (rule map_cong [OF refl])
    fix r assume "r \<in> set (rows T)"
    with assms have "length (snd r) = length (columns T)" by (rule wf_frame_row)
    with assms have "map (\<lambda>x. cell (columns T) x (snd r)) (columns T) = snd r"
      by (simp add: row_as_cells wf_frame_def)
    then show "(fst r, map (\<lambda>x. cell (columns T) x (snd r)) (columns T)) = r" by simp
  qed
  then show ?thesis by simp
qed

lemma column_values_cells:
  "c \<in> set cs \<Longrightarrow>
   column_values c \<lparr>columns = cs, rows = map (\<lambda>q. (i q, map (G q) cs)) qs\<rparr> = map (\<lambda>q. G q c) qs"
  by (simp add: column_values_def cell_map comp_def)

lemma drop_column_cells:
  "drop_column c \<lparr>columns = cs, rows = map (\<lambda>q. (i q, map (G q) cs)) qs\<rparr>
     = \<lparr>columns = filter (\<lambda>l. l \<noteq> c) cs,
        rows = map (\<lambda>q. (i q, map (G q) (filter (\<lambda>l. l \<noteq> c) cs))) qs\<rparr>"
  by (simp add: drop_column_def drop_cells_map comp_def)

lemma assign_column_cells:
  "assign_column c vs \<lparr>columns = cs, rows = map (\<lambda>q. (i q, map (G q) cs)) qs\<rparr>
     = \<lparr>columns = (if c \<in> set cs then cs else cs @ [c]),
        rows = map (\<lambda>p. (i (fst p), map (\<lambda>x. if x = c then snd p else G (fst p) x)
                                         (if c \<in> set cs then cs else cs @ [c])))
                 (zip qs vs)\<rparr>"
  by (simp add: assign_column_def zip_map1 comp_def case_prod_beta set_cell_map)


lemma expander_intermediate:
  assumes wf: "wf_frame T" and ct: "Lab ''ConstructorTable'' \<in> set (columns T)"
    and len: "length resolved = length (rows T)"
  defines "df3 \<equiv>
     drop_column (Lab ''ConstructorTable'')
       (assign_column (Lab ''constructor_data'')
          (map (\<lambda>x. select_ferrari (as_list x))
               (column_values (Lab ''ConstructorTable'')
                  (assign_column (Lab ''ConstructorTable'') (map PList resolved) T)))
          (assign_column (Lab ''ConstructorTable'') (map PList resolved) T))"
  shows "column_values (Lab ''constructor_data'') df3 = map select_ferrari resolved"
    and "empty_frame df3 = (rows T = [])"
    and "drop_column (Lab ''constructor_data'') df3 =
           \<lparr>columns = filter (\<lambda>c. c \<noteq> Lab ''ConstructorTable'' \<and> c \<noteq> Lab ''constructor_data'')
                        (columns T),
            rows = map (\<lambda>r. (fst r, map (\<lambda>c. cell (columns T) c (snd r))
                         (filter (\<lambda>c. c \<noteq> Lab ''ConstructorTable'' \<and> c \<noteq> Lab ''constructor_data'')
                            (columns T)))) (rows T)\<rparr>"
proof -
  let ?CT = "Lab ''ConstructorTable''" and ?CD = "Lab ''constructor_data''"
  let ?cs = "columns T"
  let ?g = "\<lambda>r x. cell ?cs x (snd r)"
  let ?ls = "map PList resolved"
  let ?sel = "map select_ferrari resolved"
  let ?qs1 = "zip (rows T) ?ls"
  let ?G1 = "\<lambda>p x. if x = ?CT then snd p else ?g (fst p) x"
  let ?cs2 = "if ?CD \<in> set ?cs then ?cs else ?cs @ [?CD]"
  let ?qs2 = "zip ?qs1 ?sel"
  let ?G2 = "\<lambda>q x. if x = ?CD then snd q else ?G1 (fst q) x"
  let ?others = "filter (\<lambda>c. c \<noteq> ?CT \<and> c \<noteq> ?CD) ?cs"
  let ?Tc = "\<lparr>columns = ?cs, rows = map (\<lambda>r. (fst r, map (?g r) ?cs)) (rows T)\<rparr>"
  let ?df1 = "\<lparr>columns = ?cs, rows = map (\<lambda>p. (fst (fst p), map (?G1 p) ?cs)) ?qs1\<rparr>"
  let ?df2 = "\<lparr>columns = ?cs2, rows = map (\<lambda>q. (fst (fst (fst q)), map (?G2 q) ?cs2)) ?qs2\<rparr>"
  have T: "T = ?Tc" by (rule wf_frame_canonical [OF wf])
  have "assign_column ?CT ?ls T = assign_column ?CT ?ls ?Tc"
    by (rule arg_cong [where f = "assign_column ?CT ?ls", OF T])
  also have "\<dots> = ?df1"
    using ct by (simp add: assign_column_cells [where i = fst and G = ?g])
  finally have df1: "assign_column ?CT ?ls T = ?df1" .
  have l1: "length ?qs1 = length (rows T)" using len by simp
  have c1: "column_values ?CT ?df1 = ?ls"
    using ct len
    by (simp add: column_values_cells [where i = "\<lambda>p. fst (fst p)" and G = ?G1] map_snd_zip)
  have sel: "map (\<lambda>x. select_ferrari (as_list x)) ?ls = ?sel" by (simp add: comp_def)
  have df2: "assign_column ?CD ?sel ?df1 = ?df2"
    by (rule assign_column_cells [where i = "\<lambda>p. fst (fst p)" and G = ?G1])
  have df3: "df3 = \<lparr>columns = filter (\<lambda>l. l \<noteq> ?CT) ?cs2,
        rows = map (\<lambda>q. (fst (fst (fst q)), map (?G2 q) (filter (\<lambda>l. l \<noteq> ?CT) ?cs2))) ?qs2\<rparr>"
    unfolding df3_def df1 c1 sel df2
    by (rule drop_column_cells [where i = "\<lambda>q. fst (fst (fst q))" and G = ?G2])
  have cd: "?CD \<in> set (filter (\<lambda>l. l \<noteq> ?CT) ?cs2)" by simp
  have l2: "length ?qs2 = length (rows T)" using len by simp
  show "column_values ?CD df3 = ?sel"
    unfolding df3
    using len
    by (simp add: column_values_cells [OF cd, where i = "\<lambda>q. fst (fst (fst q))" and G = ?G2]
        map_snd_zip)
  have ne: "filter (\<lambda>l. l \<noteq> ?CT) ?cs2 \<noteq> []"
    using cd by (metis empty_iff empty_set)
  have "rows df3 = [] \<longleftrightarrow> rows T = []"
    unfolding df3 using len by (cases resolved) auto
  moreover have "columns df3 \<noteq> []" unfolding df3 using ne by simp
  ultimately show "empty_frame df3 = (rows T = [])"
    by (simp add: empty_frame_def)
  have cols: "filter (\<lambda>l. l \<noteq> ?CD) (filter (\<lambda>l. l \<noteq> ?CT) ?cs2) = ?others"
    by (auto intro: filter_cong)
  have d: "drop_column ?CD df3 =
      \<lparr>columns = ?others, rows = map (\<lambda>q. (fst (fst (fst q)), map (?G2 q) ?others)) ?qs2\<rparr>"
    unfolding df3
    by (simp only: drop_column_cells [where i = "\<lambda>q. fst (fst (fst q))" and G = ?G2] cols)
  have r1: "map (\<lambda>q. (fst (fst (fst q)), map (?G2 q) ?others)) ?qs2
      = map (\<lambda>q. (fst (fst (fst q)), map (?g (fst (fst q))) ?others)) ?qs2"
    by (intro map_cong refl) auto
  have r2: "map (\<lambda>q. (fst (fst (fst q)), map (?g (fst (fst q))) ?others)) ?qs2
      = map (\<lambda>r. (fst r, map (?g r) ?others)) (map fst (map fst ?qs2))"
    by (simp add: comp_def)
  have r3: "map fst (map fst ?qs2) = rows T"
    using len by (simp add: map_fst_zip)
  show "drop_column ?CD df3 =
      \<lparr>columns = ?others, rows = map (\<lambda>r. (fst r, map (\<lambda>c. cell ?cs c (snd r)) ?others)) (rows T)\<rparr>"
    by (simp only: d r1 r2 r3)
qed






section \<open>What the resolver returns and when it raises\<close>

text \<open>
  The resolver returns a list unchanged, and the empty list for a value that is
  neither a list nor a string. For a string it returns what \<^verbatim>\<open>json.loads\<close> gives when
  that is a list and the empty list when it is anything else; when \<^verbatim>\<open>json.loads\<close> raises
  \<^verbatim>\<open>JSONDecodeError\<close> the same holds for \<^verbatim>\<open>ast.literal_eval\<close>, and a
  \<^verbatim>\<open>ValueError\<close> or \<^verbatim>\<open>SyntaxError\<close> of the latter gives the empty list. The resolver
  raises only on a string: with the exception of \<^verbatim>\<open>json.loads\<close> when that is not a
  \<^verbatim>\<open>JSONDecodeError\<close>, or with the exception of \<^verbatim>\<open>ast.literal_eval\<close> when that is
  neither a \<^verbatim>\<open>ValueError\<close> nor a \<^verbatim>\<open>SyntaxError\<close>.
\<close>

theorem validate_constructor_data_resolution:
  "validate_constructor_data P (PList xs) = Inr xs
   \<and> ((\<forall>s. v \<noteq> PStr s) \<and> \<not> is_list v \<longrightarrow> validate_constructor_data P v = Inr [])
   \<and> (json_loads P s = Inr v \<longrightarrow> validate_constructor_data P (PStr s) = Inr (as_list v))
   \<and> (json_loads P s = Inl e \<and> is_JSONDecodeError e \<and> literal_eval P s = Inr v \<longrightarrow>
        validate_constructor_data P (PStr s) = Inr (as_list v))
   \<and> (json_loads P s = Inl e \<and> is_JSONDecodeError e \<and> literal_eval P s = Inl e' \<and>
        is_ValueError_or_SyntaxError e' \<longrightarrow> validate_constructor_data P (PStr s) = Inr [])
   \<and> (validate_constructor_data P d = Inl x \<longrightarrow>
        (\<exists>t. d = PStr t \<and>
           ((json_loads P t = Inl x \<and> \<not> is_JSONDecodeError x)
            \<or> (\<exists>e0. json_loads P t = Inl e0 \<and> is_JSONDecodeError e0 \<and>
                 literal_eval P t = Inl x \<and> \<not> is_ValueError_or_SyntaxError x))))"
proof (intro conjI impI)
  show "validate_constructor_data P (PList xs) = Inr xs"
    by (rule validate_constructor_data_list)
next
  assume "(\<forall>s. v \<noteq> PStr s) \<and> \<not> is_list v"
  then show "validate_constructor_data P v = Inr []"
    by (cases v) (simp_all add: validate_constructor_data_def)
next
  assume "json_loads P s = Inr v"
  then show "validate_constructor_data P (PStr s) = Inr (as_list v)"
    by (rule validate_constructor_data_json)
next
  assume "json_loads P s = Inl e \<and> is_JSONDecodeError e \<and> literal_eval P s = Inr v"
  then show "validate_constructor_data P (PStr s) = Inr (as_list v)"
    by (simp add: validate_constructor_data_fallback)
next
  assume "json_loads P s = Inl e \<and> is_JSONDecodeError e \<and> literal_eval P s = Inl e' \<and>
        is_ValueError_or_SyntaxError e'"
  then show "validate_constructor_data P (PStr s) = Inr []"
    by (simp add: validate_constructor_data_fallback)
next
  assume "validate_constructor_data P d = Inl x"
  then show "\<exists>t. d = PStr t \<and>
           ((json_loads P t = Inl x \<and> \<not> is_JSONDecodeError x)
            \<or> (\<exists>e0. json_loads P t = Inl e0 \<and> is_JSONDecodeError e0 \<and>
                 literal_eval P t = Inl x \<and> \<not> is_ValueError_or_SyntaxError x))"
    by (cases d) (auto simp: validate_constructor_data_def split: sum.splits if_splits)
qed

theorem validate_constructor_data_resolution_witness:
  "validate_constructor_data sample_parsers (PStr ferrari_text) = Inr [ferrari_record, mclaren_record]
   \<and> validate_constructor_data sample_parsers (PStr ''2021'') = Inr []
   \<and> validate_constructor_data sample_parsers (PStr ''nonsense'') = Inr []
   \<and> validate_constructor_data sample_parsers PNone = Inr []"
proof -
  have a: "json_loads sample_parsers ferrari_text = Inr ferrari_list"
    by (simp add: sample_parsers_def)
  have b: "json_loads sample_parsers ''2021'' = Inr (PInt 2021)"
    by (simp add: sample_parsers_def ferrari_text_def quoted_def)
  have c: "json_loads sample_parsers ''nonsense'' = Inl (PyError JSONDecodeError ''Expecting value'')
      \<and> is_JSONDecodeError (PyError JSONDecodeError ''Expecting value'')
      \<and> literal_eval sample_parsers ''nonsense'' = Inl (PyError ValueError ''malformed node or string'')
      \<and> is_ValueError_or_SyntaxError (PyError ValueError ''malformed node or string'')"
    by (simp add: sample_parsers_def ferrari_text_def quoted_def is_JSONDecodeError_def
        is_ValueError_or_SyntaxError_def)
  have d: "(\<forall>s. PNone \<noteq> PStr s) \<and> \<not> is_list PNone" by simp
  from validate_constructor_data_resolution [where P = sample_parsers and s = ferrari_text
      and v = ferrari_list] a
  have r1: "validate_constructor_data sample_parsers (PStr ferrari_text) = Inr (as_list ferrari_list)"
    by blast
  from validate_constructor_data_resolution [where P = sample_parsers and v = PNone] d
  have r4: "validate_constructor_data sample_parsers PNone = Inr []"
    by blast
  from validate_constructor_data_resolution [where P = sample_parsers and s = "''2021''"
      and v = "PInt 2021"] b
  have r2: "validate_constructor_data sample_parsers (PStr ''2021'') = Inr (as_list (PInt 2021))"
    by blast
  from validate_constructor_data_resolution [where P = sample_parsers and s = "''nonsense''"
      and e = "PyError JSONDecodeError ''Expecting value''"
      and e' = "PyError ValueError ''malformed node or string''"] c
  have r3: "validate_constructor_data sample_parsers (PStr ''nonsense'') = Inr []"
    by blast
  from r1 r2 r3 r4 show ?thesis by (simp add: ferrari_list_def)
qed

section \<open>The cleaner on its own output\<close>

lemma clean_dataframe_eq:
  assumes n: "\<not> (Lab ''ConstructorTable'' \<in> set (columns T) \<and> rows T = [])"
      and s: "filter (\<lambda>col. col \<noteq> Lab ''ConstructorTable'') (columns T) \<noteq> []"
  defines "rows1 \<equiv> filter (\<lambda>r. Lab ''ConstructorTable'' \<in> set (columns T) \<longrightarrow>
                      \<not> is_year_number (cell (columns T) (Lab ''ConstructorTable'') (snd r))) (rows T)"
      and "key \<equiv> (\<lambda>r. row_key (columns T)
                      (filter (\<lambda>col. col \<noteq> Lab ''ConstructorTable'') (columns T)) (snd r))"
  shows "clean_dataframe T =
      (if list_ex (\<lambda>r. None \<in> set (key r)) rows1
       then Inl (PyError TypeError ''unhashable type'')
       else Inr (if Lab ''year'' \<in> set (columns T) \<and> Lab ''season'' \<in> set (columns T)
               then reconcile_year_season \<lparr>columns = columns T, rows = keep_first key rows1\<rparr>
               else \<lparr>columns = columns T, rows = keep_first key rows1\<rparr>))"
proof -
  let ?CT = "Lab ''ConstructorTable''"
  let ?df1 = "\<lparr>columns = columns T, rows = rows1\<rparr>"
  let ?safe = "filter (\<lambda>col. col \<noteq> ?CT) (columns T)"
  have df1: "(if ?CT \<in> set (columns T) then remove_year_rows T else T) = ?df1"
    using n by (auto simp: remove_year_rows_def filter_rows_def rows1_def)
  have cols: "columns T \<noteq> []" using s by auto
  have dd: "drop_duplicates ?safe ?df1 =
      (if rows1 = [] then Inr ?df1
       else if list_ex (\<lambda>r. None \<in> set (key r)) rows1
       then Inl (PyError TypeError ''unhashable type'')
       else Inr \<lparr>columns = columns T, rows = keep_first key rows1\<rparr>)"
    using cols by (simp add: drop_duplicates_def empty_frame_def key_def)
  have cl: "clean_dataframe T =
      (case drop_duplicates ?safe ?df1 of
         Inl e \<Rightarrow> Inl e
       | Inr df2 \<Rightarrow>
           if Lab ''year'' \<in> set (columns df2) \<and> Lab ''season'' \<in> set (columns df2)
           then Inr (reconcile_year_season df2) else Inr df2)"
    using s by (simp add: clean_dataframe_def df1 Let_def)
  show ?thesis
  proof (cases "rows1 = []")
    case True
    with cl dd show ?thesis by simp
  next
    case False
    with cl dd show ?thesis by simp
  qed
qed

lemma cell_key_None_flag: "(cell_key a v = None) = (cell_key b v = None)"
  by (cases v) auto

lemma cell_key_coarser:
  "cell_key a v = cell_key a w \<Longrightarrow> cell_key False v = cell_key False w"
  by (cases v; cases w) (auto split: if_splits)

lemma distinct_map_finer:
  assumes "distinct (map f xs)"
    and "\<And>x y. x \<in> set xs \<Longrightarrow> y \<in> set xs \<Longrightarrow> g x = g y \<Longrightarrow> f x = f y"
  shows "distinct (map g xs)"
proof -
  from assms(1) have d: "distinct xs" and i: "inj_on f (set xs)"
    by (simp_all add: distinct_map)
  have "inj_on g (set xs)"
  proof (rule inj_onI)
    fix x y assume "x \<in> set xs" "y \<in> set xs" "g x = g y"
    with assms(2) have "f x = f y" by blast
    with i \<open>x \<in> set xs\<close> \<open>y \<in> set xs\<close> show "x = y" by (simp add: inj_on_def)
  qed
  with d show ?thesis by (simp add: distinct_map)
qed

lemma length_keep_first: "length (keep_first key xs) \<le> length xs"
proof (induction key xs rule: keep_first.induct)
  case (1 key)
  then show ?case by simp
next
  case (2 key x xs)
  have "length (keep_first key (filter (\<lambda>y. key y \<noteq> key x) xs))
      \<le> length (filter (\<lambda>y. key y \<noteq> key x) xs)" by (rule 2)
  also have "\<dots> \<le> length xs" by (rule length_filter_le)
  finally show ?case by simp
qed

lemma clean_dataframe_only_constructor_column:
  assumes n: "\<not> (Lab ''ConstructorTable'' \<in> set (columns T) \<and> rows T = [])"
      and s: "filter (\<lambda>col. col \<noteq> Lab ''ConstructorTable'') (columns T) = []"
  shows "clean_dataframe T =
      Inr \<lparr>columns = columns T,
           rows = filter (\<lambda>r. Lab ''ConstructorTable'' \<in> set (columns T) \<longrightarrow>
                    \<not> is_year_number (cell (columns T) (Lab ''ConstructorTable'') (snd r)))
                  (rows T)\<rparr>"
proof -
  let ?CT = "Lab ''ConstructorTable''"
  let ?df1 = "\<lparr>columns = columns T,
      rows = filter (\<lambda>r. ?CT \<in> set (columns T) \<longrightarrow>
               \<not> is_year_number (cell (columns T) ?CT (snd r))) (rows T)\<rparr>"
  have df1: "(if ?CT \<in> set (columns T) then remove_year_rows T else T) = ?df1"
    using n by (auto simp: remove_year_rows_def filter_rows_def)
  have y: "Lab ''year'' \<notin> set (columns T)"
  proof
    assume "Lab ''year'' \<in> set (columns T)"
    then have "Lab ''year'' \<in> set (filter (\<lambda>col. col \<noteq> ?CT) (columns T))" by simp
    with s show False by simp
  qed
  show ?thesis
    unfolding clean_dataframe_def df1 Let_def
    using s y by simp
qed

lemma clean_dataframe_shrinks:
  assumes "clean_dataframe T = Inr T'"
  shows "length (rows T') \<le> length (rows T) \<and> set (columns T') \<subseteq> set (columns T)"
proof (cases "Lab ''ConstructorTable'' \<in> set (columns T) \<and> rows T = []")
  case True
  with assms have "T' = \<lparr>columns = [], rows = []\<rparr>"
    by (simp add: clean_dataframe_no_rows)
  then show ?thesis by simp
next
  case n: False
  let ?CT = "Lab ''ConstructorTable''"
  let ?rows1 = "filter (\<lambda>r. ?CT \<in> set (columns T) \<longrightarrow>
      \<not> is_year_number (cell (columns T) ?CT (snd r))) (rows T)"
  show ?thesis
  proof (cases "filter (\<lambda>col. col \<noteq> ?CT) (columns T) = []")
    case True
    from clean_dataframe_only_constructor_column [OF n True] assms
    have "T' = \<lparr>columns = columns T, rows = ?rows1\<rparr>" by simp
    then show ?thesis by simp
  next
    case False
    let ?key = "\<lambda>r. row_key (columns T) (filter (\<lambda>col. col \<noteq> ?CT) (columns T)) (snd r)"
    let ?kept = "keep_first ?key ?rows1"
    have "length ?kept \<le> length ?rows1" by (rule length_keep_first)
    also have "\<dots> \<le> length (rows T)" by (rule length_filter_le)
    finally have k: "length ?kept \<le> length (rows T)" .
    from clean_dataframe_steps [OF assms n False]
    have T': "T' = (if Lab ''year'' \<in> set (columns T) \<and> Lab ''season'' \<in> set (columns T)
               then reconcile_year_season \<lparr>columns = columns T, rows = ?kept\<rparr>
               else \<lparr>columns = columns T, rows = ?kept\<rparr>)"
      by (rule conjunct2)
    show ?thesis
    proof (cases "Lab ''year'' \<in> set (columns T) \<and> Lab ''season'' \<in> set (columns T)")
      case True
      with T' have c: "columns T' = filter (\<lambda>l. l \<noteq> Lab ''season'') (columns T)"
        and r: "length (rows T') = length (filter (\<lambda>r.
            series_eq (cell (columns T) (Lab ''year'') (snd r))
                      (cell (columns T) (Lab ''season'') (snd r))) ?kept)"
        by (simp_all add: reconcile_year_season_def drop_column_def filter_rows_def)
      have "length (rows T') \<le> length ?kept" unfolding r by (rule length_filter_le)
      with k c show ?thesis by auto
    next
      case False
      with T' k show ?thesis by simp
    qed
  qed
qed

lemma row_key_drop_cells:
  assumes "distinct cs" and "length r = length cs" and "set subs \<subseteq> set cs" and "c \<notin> set subs"
  shows "row_key (filter (\<lambda>l. l \<noteq> c) cs) subs (drop_cells cs c r)
       = map (\<lambda>x. cell_key (length subs = 1) (cell cs x r)) subs"
  unfolding row_key_def
proof (rule map_cong [OF refl])
  fix x assume "x \<in> set subs"
  with assms(3,4) have "x \<in> set cs" "x \<noteq> c" by auto
  with cell_drop_cells [OF assms(1,2)]
  show "cell_key (length subs = 1) (cell (filter (\<lambda>l. l \<noteq> c) cs) x (drop_cells cs c r))
      = cell_key (length subs = 1) (cell cs x r)" by simp
qed

lemma keep_first_fixed:
  assumes "\<And>x y. x \<in> set xs \<Longrightarrow> y \<in> set xs \<Longrightarrow> g x = g y \<Longrightarrow> f x = f y"
  shows "keep_first g (keep_first f xs) = keep_first f xs"
proof -
  have "distinct (map f (keep_first f xs))" by (rule keep_first_distinct_keys)
  moreover have "\<And>x y. x \<in> set (keep_first f xs) \<Longrightarrow> y \<in> set (keep_first f xs) \<Longrightarrow>
      g x = g y \<Longrightarrow> f x = f y"
    using assms keep_first_subset [of f xs] by blast
  ultimately have "distinct (map g (keep_first f xs))" by (rule distinct_map_finer)
  then show ?thesis by (rule keep_first_of_distinct)
qed

text \<open>
  The cleaner adds neither rows nor columns: its result has at most as many rows
  as its argument, and every column label of the result is a column label of the argument.
\<close>

theorem clean_dataframe_never_grows:
  "clean_dataframe T = Inr T' \<longrightarrow>
     length (rows T') \<le> length (rows T) \<and> set (columns T') \<subseteq> set (columns T)"
  using clean_dataframe_shrinks by blast

theorem clean_dataframe_never_grows_witness:
  "clean_dataframe season_table = Inr season_cleaned
   \<and> length (rows season_cleaned) \<le> length (rows season_table)
   \<and> set (columns season_cleaned) \<subseteq> set (columns season_table)"
proof -
  have c: "clean_dataframe season_table = Inr season_cleaned" by code_simp
  from clean_dataframe_never_grows [of season_table season_cleaned] c show ?thesis by simp
qed

text \<open>
  On a well-formed table, cleaning the cleaner's result again changes nothing,
  provided that the result still has a row or that the argument has no
  \<^verbatim>\<open>ConstructorTable\<close> column.
\<close>

theorem clean_dataframe_idempotent_unless_emptied:
  assumes wf: "wf_frame T" and c: "clean_dataframe T = Inr T'"
    and ne: "rows T' \<noteq> [] \<or> Lab ''ConstructorTable'' \<notin> set (columns T)"
  shows "clean_dataframe T' = Inr T'"
proof -
  let ?CT = "Lab ''ConstructorTable''" and ?Y = "Lab ''year''" and ?S = "Lab ''season''"
  let ?cols = "columns T"
  let ?safe = "filter (\<lambda>col. col \<noteq> ?CT) ?cols"
  let ?p1 = "\<lambda>r. ?CT \<in> set ?cols \<longrightarrow> \<not> is_year_number (cell ?cols ?CT (snd r))"
  let ?rows1 = "filter ?p1 (rows T)"
  let ?key = "\<lambda>r. row_key ?cols ?safe (snd r)"
  let ?kept = "keep_first ?key ?rows1"
  let ?eq = "\<lambda>r. series_eq (cell ?cols ?Y (snd r)) (cell ?cols ?S (snd r))"
  have dist: "distinct ?cols" using wf by (simp add: wf_frame_def)
  have n: "\<not> (?CT \<in> set ?cols \<and> rows T = [])"
    using ne clean_dataframe_shrinks [OF c] by auto
  show ?thesis
  proof (cases "?safe = []")
    case True
    from clean_dataframe_only_constructor_column [OF n True] c
    have T': "T' = \<lparr>columns = ?cols, rows = ?rows1\<rparr>" by simp
    have n': "\<not> (?CT \<in> set (columns T') \<and> rows T' = [])"
    proof
      assume a: "?CT \<in> set (columns T') \<and> rows T' = []"
      then have "?CT \<in> set ?cols" by (simp add: T')
      with ne have "rows T' \<noteq> []" by simp
      with a show False by simp
    qed
    have s': "filter (\<lambda>col. col \<noteq> ?CT) (columns T') = []" using True by (simp add: T')
    show ?thesis
      unfolding clean_dataframe_only_constructor_column [OF n' s']
      by (simp add: T')
  next
    case safe: False
    note st = clean_dataframe_steps [OF c n safe]
    from st have hash: "\<forall>r \<in> set ?rows1. None \<notin> set (?key r)" by (rule conjunct1)
    from st have T'if: "T' = (if ?Y \<in> set ?cols \<and> ?S \<in> set ?cols
        then reconcile_year_season \<lparr>columns = ?cols, rows = ?kept\<rparr>
        else \<lparr>columns = ?cols, rows = ?kept\<rparr>)" by (rule conjunct2)
    have kept_sub: "set ?kept \<subseteq> set ?rows1" by (rule keep_first_subset)
    show ?thesis
    proof (cases "?Y \<in> set ?cols \<and> ?S \<in> set ?cols")
      case False
      with T'if have T': "T' = \<lparr>columns = ?cols, rows = ?kept\<rparr>" by simp
      have n': "\<not> (?CT \<in> set (columns T') \<and> rows T' = [])"
      proof
      assume a: "?CT \<in> set (columns T') \<and> rows T' = []"
      then have "?CT \<in> set ?cols" by (simp add: T')
      with ne have "rows T' \<noteq> []" by simp
      with a show False by simp
    qed
      have s': "filter (\<lambda>col. col \<noteq> ?CT) (columns T') \<noteq> []" using safe by (simp add: T')
      have f1: "filter ?p1 ?kept = ?kept"
        using kept_sub by (auto simp: filter_id_conv)
      have nohash: "\<not> list_ex (\<lambda>r. None \<in> set (?key r)) ?kept"
        using hash kept_sub by (auto simp: list_ex_iff)
      have kk: "keep_first ?key ?kept = ?kept"
        by (rule keep_first_of_distinct [OF keep_first_distinct_keys])
      let ?rows1' = "filter (\<lambda>r. ?CT \<in> set (columns T') \<longrightarrow>
          \<not> is_year_number (cell (columns T') ?CT (snd r))) (rows T')"
      let ?k' = "\<lambda>r. row_key (columns T') (filter (\<lambda>col. col \<noteq> ?CT) (columns T')) (snd r)"
      have c': "columns T' = ?cols" and r': "rows T' = ?kept" by (simp_all add: T')
      have nb: "\<not> (?Y \<in> set (columns T') \<and> ?S \<in> set (columns T'))"
        unfolding c' by (rule False)
      have nh: "\<not> list_ex (\<lambda>r. None \<in> set (?k' r)) ?rows1'"
        unfolding c' r' f1 by (rule nohash)
      have kf: "keep_first ?k' ?rows1' = rows T'"
        unfolding c' r' f1 by (rule kk)
      have "clean_dataframe T' = Inr \<lparr>columns = columns T', rows = rows T'\<rparr>"
        unfolding clean_dataframe_eq [OF n' s'] if_not_P [OF nh] if_not_P [OF nb] kf ..
      then show ?thesis by simp
    next
      case both: True
      then have y: "?Y \<in> set ?cols" and s: "?S \<in> set ?cols" by simp_all
      have ys: "?Y \<in> set ?safe" "?S \<in> set ?safe" using y s by auto
      have multi: "length ?safe \<noteq> 1" using two_columns_not_single [OF ys] by simp
      let ?cols' = "filter (\<lambda>l. l \<noteq> ?S) ?cols"
      let ?dS = "\<lambda>r. (fst r, drop_cells ?cols ?S (snd r))"
      let ?rows' = "map ?dS (filter ?eq ?kept)"
      let ?safe' = "filter (\<lambda>col. col \<noteq> ?CT) ?cols'"
      let ?key' = "\<lambda>r. row_key ?cols' ?safe' (snd r)"
      let ?kf = "\<lambda>col r. cell_key False (cell ?cols col (snd r))"
      from T'if both have T': "T' = \<lparr>columns = ?cols', rows = ?rows'\<rparr>"
        by (simp add: reconcile_year_season_def drop_column_def filter_rows_def)
      have n': "\<not> (?CT \<in> set (columns T') \<and> rows T' = [])"
      proof
      assume a: "?CT \<in> set (columns T') \<and> rows T' = []"
      then have "?CT \<in> set ?cols" by (simp add: T')
      with ne have "rows T' \<noteq> []" by simp
      with a show False by simp
    qed
      have ysafe': "?Y \<in> set ?safe'" using y by simp
      have cT': "columns T' = ?cols'" by (simp add: T')
      have s': "filter (\<lambda>col. col \<noteq> ?CT) (columns T') \<noteq> []"
        unfolding cT' using ysafe' by (metis empty_iff empty_set)
      have len: "length (snd r) = length ?cols" if "r \<in> set ?kept" for r
      proof -
        from that kept_sub have "r \<in> set (rows T)" by auto
        with wf show ?thesis by (rule wf_frame_row)
      qed
      have sub': "set ?safe' \<subseteq> set ?cols" by auto
      have nS: "?S \<notin> set ?safe'" by simp
      have key': "?key' (?dS r) = map (\<lambda>x. cell_key (length ?safe' = 1) (cell ?cols x (snd r))) ?safe'"
        if "r \<in> set ?kept" for r
        using row_key_drop_cells [OF dist len [OF that] sub' nS] by simp
      have keyc: "?kf col r \<noteq> None" if "r \<in> set ?kept" "col \<in> set ?safe" for r col
      proof -
        from that(1) kept_sub hash have "None \<notin> set (?key r)" by blast
        with that(2) multi have "None \<noteq> ?kf col r"
          by (auto simp: row_key_def image_iff)
        then show ?thesis by simp
      qed
      have f1: "filter (\<lambda>r. ?CT \<in> set ?cols' \<longrightarrow>
          \<not> is_year_number (cell ?cols' ?CT (snd r))) ?rows' = ?rows'"
      proof -
        have "\<not> is_year_number (cell ?cols' ?CT (snd (?dS r)))"
          if "r \<in> set ?kept" "?CT \<in> set ?cols'" for r
        proof -
          from that(2) have ct: "?CT \<in> set ?cols" by simp
          from that(1) kept_sub have "?p1 r" by auto
          with ct have "\<not> is_year_number (cell ?cols ?CT (snd r))" by simp
          moreover have "cell ?cols' ?CT (drop_cells ?cols ?S (snd r)) = cell ?cols ?CT (snd r)"
            by (rule cell_drop_cells [OF dist len [OF that(1)] ct]) simp
          ultimately show ?thesis by simp
        qed
        then show ?thesis by (auto simp: filter_id_conv)
      qed
      have nohash: "\<not> list_ex (\<lambda>r. None \<in> set (?key' r)) ?rows'"
      proof -
        have "None \<notin> set (?key' (?dS r))" if rk: "r \<in> set ?kept" for r
        proof
          assume "None \<in> set (?key' (?dS r))"
          then have "None \<in> set (map (\<lambda>x. cell_key (length ?safe' = 1) (cell ?cols x (snd r))) ?safe')"
            unfolding key' [OF rk] .
          then obtain col where col: "col \<in> set ?safe'"
            and "cell_key (length ?safe' = 1) (cell ?cols col (snd r)) = None"
            by (auto simp: image_iff)
          then have "?kf col r = None" using cell_key_None_flag by blast
          moreover from col have "col \<in> set ?safe" by simp
          ultimately show False using keyc [OF rk] by blast
        qed
        then show ?thesis by (auto simp: list_ex_iff)
      qed
      have inj: "?key x = ?key y"
        if x: "x \<in> set (filter ?eq ?kept)" and y: "y \<in> set (filter ?eq ?kept)"
          and k: "?key' (?dS x) = ?key' (?dS y)" for x y
      proof -
        from x y have xk: "x \<in> set ?kept" and yk: "y \<in> set ?kept"
          and ex: "?eq x" and ey: "?eq y" by simp_all
        from k have "map (\<lambda>c. cell_key (length ?safe' = 1) (cell ?cols c (snd x))) ?safe'
            = map (\<lambda>c. cell_key (length ?safe' = 1) (cell ?cols c (snd y))) ?safe'"
          unfolding key' [OF xk] key' [OF yk] .
        then have fine: "cell_key (length ?safe' = 1) (cell ?cols col (snd x))
            = cell_key (length ?safe' = 1) (cell ?cols col (snd y))" if "col \<in> set ?safe'" for col
          using that by simp
        have coarse: "?kf col x = ?kf col y" if "col \<in> set ?safe'" for col
          using fine [OF that] by (rule cell_key_coarser)
        have sx: "?kf ?Y x = ?kf ?S x \<and> ?kf ?Y x \<noteq> Some KNone"
          using ex by (rule iffD1 [OF series_eq_iff_key [OF keyc [OF xk ys(1)] keyc [OF xk ys(2)]]])
        have sy: "?kf ?Y y = ?kf ?S y \<and> ?kf ?Y y \<noteq> Some KNone"
          using ey by (rule iffD1 [OF series_eq_iff_key [OF keyc [OF yk ys(1)] keyc [OF yk ys(2)]]])
        have season: "?kf ?S x = ?kf ?S y"
          using sx sy coarse [OF ysafe'] by simp
        have "?kf col x = ?kf col y" if "col \<in> set ?safe" for col
        proof (cases "col = ?S")
          case True
          with season show ?thesis by simp
        next
          case False
          with that have "col \<in> set ?safe'" by simp
          then show ?thesis by (rule coarse)
        qed
        then show ?thesis using multi by (simp add: row_key_def)
      qed
      have dk: "distinct (map ?key (filter ?eq ?kept))"
        by (rule distinct_map_filter [OF keep_first_distinct_keys])
      have "distinct (map (\<lambda>r. ?key' (?dS r)) (filter ?eq ?kept))"
        using dk inj by (rule distinct_map_finer)
      then have "distinct (map ?key' ?rows')" by (simp add: comp_def)
      then have kk: "keep_first ?key' ?rows' = ?rows'" by (rule keep_first_of_distinct)
      have notboth: "\<not> (?Y \<in> set ?cols' \<and> ?S \<in> set ?cols')" by simp
      let ?rows1' = "filter (\<lambda>r. ?CT \<in> set (columns T') \<longrightarrow>
          \<not> is_year_number (cell (columns T') ?CT (snd r))) (rows T')"
      let ?k' = "\<lambda>r. row_key (columns T') (filter (\<lambda>col. col \<noteq> ?CT) (columns T')) (snd r)"
      have r': "rows T' = ?rows'" by (simp add: T')
      have nb: "\<not> (?Y \<in> set (columns T') \<and> ?S \<in> set (columns T'))"
        unfolding cT' by (rule notboth)
      have nh: "\<not> list_ex (\<lambda>r. None \<in> set (?k' r)) ?rows1'"
        unfolding cT' r' f1 by (rule nohash)
      have kf: "keep_first ?k' ?rows1' = rows T'"
        unfolding cT' r' f1 by (rule kk)
      have "clean_dataframe T' = Inr \<lparr>columns = columns T', rows = rows T'\<rparr>"
        unfolding clean_dataframe_eq [OF n' s'] if_not_P [OF nh] if_not_P [OF nb] kf ..
      then show ?thesis by simp
    qed
  qed
qed

theorem clean_dataframe_idempotent_unless_emptied_witness:
  "clean_dataframe season_table = Inr season_cleaned
   \<and> clean_dataframe season_cleaned = Inr season_cleaned"
proof -
  have wf: "wf_frame season_table" by code_simp
  have c: "clean_dataframe season_table = Inr season_cleaned" by code_simp
  have ne: "rows season_cleaned \<noteq> [] \<or> Lab ''ConstructorTable'' \<notin> set (columns season_table)"
    by (simp add: season_cleaned_def)
  from clean_dataframe_idempotent_unless_emptied [OF wf c ne] c show ?thesis by simp
qed

section \<open>The expander on the two-record example\<close>

lemma normalize_body_resolved:
  assumes wf: "wf_frame T" and ct: "Lab ''ConstructorTable'' \<in> set (columns T)"
    and res: "apply_series (validate_constructor_data P)
                (column_values (Lab ''ConstructorTable'') T) = Inr resolved"
  shows "normalize_body P T =
      (if rows T \<noteq> [] \<and> (case map select_ferrari resolved of [] \<Rightarrow> False | v # _ \<Rightarrow> truthy v)
       then (case concat_axis1
                 \<lparr>columns = filter (\<lambda>c. c \<noteq> Lab ''ConstructorTable'' \<and> c \<noteq> Lab ''constructor_data'')
                     (columns T),
                  rows = map (\<lambda>r. (fst r, map (\<lambda>c. cell (columns T) c (snd r))
                    (filter (\<lambda>c. c \<noteq> Lab ''ConstructorTable'' \<and> c \<noteq> Lab ''constructor_data'')
                       (columns T)))) (rows T)\<rparr>
                 (json_normalize (map select_ferrari resolved)) of
               Inl e \<Rightarrow> Inr
                 \<lparr>columns = filter (\<lambda>c. c \<noteq> Lab ''ConstructorTable'' \<and> c \<noteq> Lab ''constructor_data'')
                     (columns T),
                  rows = map (\<lambda>r. (fst r, map (\<lambda>c. cell (columns T) c (snd r))
                    (filter (\<lambda>c. c \<noteq> Lab ''ConstructorTable'' \<and> c \<noteq> Lab ''constructor_data'')
                       (columns T)))) (rows T)\<rparr>
             | Inr df4 \<Rightarrow> Inr df4)
       else Inr
         \<lparr>columns = filter (\<lambda>c. c \<noteq> Lab ''ConstructorTable'' \<and> c \<noteq> Lab ''constructor_data'')
             (columns T),
          rows = map (\<lambda>r. (fst r, map (\<lambda>c. cell (columns T) c (snd r))
            (filter (\<lambda>c. c \<noteq> Lab ''ConstructorTable'' \<and> c \<noteq> Lab ''constructor_data'')
               (columns T)))) (rows T)\<rparr>)"
proof -
  have len: "length resolved = length (rows T)"
    using apply_series_length [OF res] by (simp add: column_values_def)
  note I = expander_intermediate [OF wf ct len]
  show ?thesis
    using ct res by (simp add: normalize_body_def Let_def I cong: sum.case_cong)
qed

lemma json_normalize_ferrari_record:
  "json_normalize [ferrari_record] =
     \<lparr>columns = [Lab ''constructorId'', Lab ''points''],
      rows = [(0, [PStr ''ferrari'', PInt 90])]\<rparr>"
  by code_simp

text \<open>
  A well-formed table of one row labelled 0 whose \<^verbatim>\<open>ConstructorTable\<close> cell
  is the list of the \<^verbatim>\<open>ferrari\<close> record with 90 points and the \<^verbatim>\<open>mclaren\<close> record
  with 50 points, structured or as text that \<^verbatim>\<open>json.loads\<close> parses to that list, is
  expanded to the other columns followed by \<^verbatim>\<open>constructorId\<close> and \<^verbatim>\<open>points\<close>,
  with the cells \<^verbatim>\<open>ferrari\<close> and 90 in its row.
\<close>

theorem example_cell_expansion:
  assumes wf: "wf_frame T" and one: "rows T = [(0, r)]"
    and ct: "Lab ''ConstructorTable'' \<in> set (columns T)"
    and cell: "(cell (columns T) (Lab ''ConstructorTable'') r = PStr ferrari_text
                  \<and> json_loads P ferrari_text = Inr ferrari_list)
               \<or> cell (columns T) (Lab ''ConstructorTable'') r = ferrari_list"
  shows "normalize_constructor_data P T =
     \<lparr>columns = filter (\<lambda>c. c \<noteq> Lab ''ConstructorTable'' \<and> c \<noteq> Lab ''constructor_data'')
                  (columns T)
                @ [Lab ''constructorId'', Lab ''points''],
      rows = [(0, map (\<lambda>c. cell (columns T) c r)
                    (filter (\<lambda>c. c \<noteq> Lab ''ConstructorTable'' \<and> c \<noteq> Lab ''constructor_data'')
                       (columns T))
                  @ [PStr ''ferrari'', PInt 90])]\<rparr>"
proof -
  have v: "validate_constructor_data P (cell (columns T) (Lab ''ConstructorTable'') r)
      = Inr [ferrari_record, mclaren_record]"
    using cell
    by (auto simp: validate_constructor_data_def ferrari_list_def)
  then have res: "apply_series (validate_constructor_data P)
      (column_values (Lab ''ConstructorTable'') T) = Inr [[ferrari_record, mclaren_record]]"
    by (simp add: column_values_def one)
  have tr: "truthy ferrari_record" by (simp add: ferrari_record_def)
  have sel: "map select_ferrari [[ferrari_record, mclaren_record]] = [ferrari_record]"
    by (simp add: ferrari_record_def)
  show ?thesis
    unfolding normalize_constructor_data_def normalize_body_resolved [OF wf ct res] sel
      json_normalize_ferrari_record
    by (simp add: one tr concat_axis1_def)
qed

theorem example_cell_expansion_witness:
  "normalize_constructor_data sample_parsers example_table =
     \<lparr>columns = [Lab ''year'', Lab ''constructorId'', Lab ''points''],
      rows = [(0, [PInt 2021, PStr ''ferrari'', PInt 90])]\<rparr>"
proof -
  have wf: "wf_frame example_table" by code_simp
  have one: "rows example_table = [(0, [PInt 2021, PStr ferrari_text])]"
    by (simp add: example_table_def)
  have ct: "Lab ''ConstructorTable'' \<in> set (columns example_table)"
    by (simp add: example_table_def)
  have c: "(cell (columns example_table) (Lab ''ConstructorTable'') [PInt 2021, PStr ferrari_text]
          = PStr ferrari_text \<and> json_loads sample_parsers ferrari_text = Inr ferrari_list)
      \<or> cell (columns example_table) (Lab ''ConstructorTable'') [PInt 2021, PStr ferrari_text]
          = ferrari_list"
    by (simp add: example_table_def cell_def sample_parsers_def)
  show ?thesis
    unfolding example_cell_expansion [OF wf one ct c]
    by (simp add: example_table_def cell_def)
qed

end
